theory Spec2Isabelle
  imports Complex_Main "HOL-Library.AList" "HOL-Library.Char_ord" "HOL-Library.List_Lexorder"
begin

section \<open>Python values, dictionaries and errors\<close>

text \<open>
  The module \<^verbatim>\<open>transformers/integrations.py\<close> reshapes dictionaries and hands them to
  vendor SDKs. A Python \<^verbatim>\<open>dict\<close> keeps its keys distinct and in insertion order; it is
  modelled as an association list, and the assignment \<^verbatim>\<open>d[k] = v\<close> as \<open>AList.update\<close>
  (an existing key keeps its position and gets the new value, a new key goes to the end).
  \<open>pyval\<close> is a Python value written out as a tree: a JSON document, or a value of a log
  record. A \<^verbatim>\<open>float\<close> is carried by the rational number it denotes; floating-point
  rounding is outside the model.
\<close>

datatype pyval =
    PNone
  | PBool bool
  | PInt int
  | PFloat rat
  | PStr string
  | PList "pyval list"
  | PDict "(string \<times> pyval) list"

type_synonym 'v dict = "(string \<times> 'v) list"

datatype error =
    ValueError string
  | RuntimeError string
  | KeyError string
  | TypeError
  | AttributeError
  | IndexError
  | ImportError
  | OSError

definition startswith :: "string \<Rightarrow> string \<Rightarrow> bool" where
  \<comment> \<open>\<^verbatim>\<open>s.startswith(p)\<close>\<close>
  "startswith s p = (take (length p) s = p)"

fun join :: "string \<Rightarrow> string list \<Rightarrow> string" where
  \<comment> \<open>\<^verbatim>\<open>sep.join(xs)\<close>\<close>
  "join sep [] = []"
| "join sep [x] = x"
| "join sep (x # y # ys) = x @ sep @ join sep (y # ys)"

section \<open>\<^verbatim>\<open>rewrite_logs\<close>\<close>

definition eval_prefix :: string where
  "eval_prefix = ''eval_''"

definition eval_prefix_len :: nat where
  "eval_prefix_len = length eval_prefix"

text \<open>The body of the loop of \<^verbatim>\<open>rewrite_logs\<close>: one item of \<^verbatim>\<open>d.items()\<close> is stored in \<^verbatim>\<open>new_d\<close>.\<close>

definition rewrite_item :: "string \<times> 'v \<Rightarrow> 'v dict \<Rightarrow> 'v dict" where
  "rewrite_item kv new_d =
     (case kv of (k, v) \<Rightarrow>
        if startswith k eval_prefix
        then AList.update (''eval/'' @ drop eval_prefix_len k) v new_d
        else AList.update (''train/'' @ k) v new_d)"

definition rewrite_logs :: "'v dict \<Rightarrow> 'v dict" where
  "rewrite_logs d = fold rewrite_item d []"

section \<open>The registry of reporting integrations\<close>

datatype callback_class =
    AzureMLCallback
  | CometCallback
  | MLflowCallback
  | TensorBoardCallback
  | WandbCallback

definition INTEGRATION_TO_CALLBACK :: "callback_class dict" where
  "INTEGRATION_TO_CALLBACK =
     [(''azure_ml'', AzureMLCallback),
      (''comet_ml'', CometCallback),
      (''mlflow'', MLflowCallback),
      (''tensorboard'', TensorBoardCallback),
      (''wandb'', WandbCallback)]"

text \<open>
  The validating loop of \<^verbatim>\<open>get_reporting_integration_callbacks\<close>: it raises at the first
  entry that is not a key of the registry.
\<close>

fun check_integrations :: "string list \<Rightarrow> error + unit" where
  "check_integrations [] = Inr ()"
| "check_integrations (integration # rest) =
     (if map_of INTEGRATION_TO_CALLBACK integration = None
      then Inl (ValueError (integration @ '' is not supported, only ''
                  @ join '', '' (map fst INTEGRATION_TO_CALLBACK) @ '' are supported.''))
      else check_integrations rest)"

text \<open>
  The list comprehension \<^verbatim>\<open>[INTEGRATION_TO_CALLBACK[integration] for integration in report_to]\<close>;
  a missing key raises \<^verbatim>\<open>KeyError\<close>.
\<close>

fun lookup_callbacks :: "string list \<Rightarrow> error + callback_class list" where
  "lookup_callbacks [] = Inr []"
| "lookup_callbacks (integration # rest) =
     (case map_of INTEGRATION_TO_CALLBACK integration of
        None \<Rightarrow> Inl (KeyError integration)
      | Some c \<Rightarrow> (case lookup_callbacks rest of Inl e \<Rightarrow> Inl e | Inr cs \<Rightarrow> Inr (c # cs)))"

definition get_reporting_integration_callbacks :: "string list \<Rightarrow> error + callback_class list" where
  "get_reporting_integration_callbacks report_to =
     (case check_integrations report_to of
        Inl e \<Rightarrow> Inl e
      | Inr _ \<Rightarrow> lookup_callbacks report_to)"

section \<open>Objects, the store and the program state\<close>

text \<open>
  The DeepSpeed configuration is a dict that the module copies and then updates in place,
  also inside its nested dicts. So dicts and lists are objects in a store, addressed by
  their index, and a value is immutable data or a reference to an object: two references
  to one address are the same object, and an update through one is seen through the other.
\<close>

datatype val =
    VNone
  | VBool bool
  | VInt int
  | VFloat rat
  | VStr string
  | VRef nat

datatype obj =
    ODict "(string \<times> val) list"
  | OList "val list"

text \<open>
  The module-level variable \<^verbatim>\<open>_is_deepspeed_zero3_enabled\<close> is part of the state. Calls to
  collaborators outside the module (the trainer, the DeepSpeed engine, the logger) are
  recorded in order; a message built by an f-string is recorded by its parts, the
  interpolated values left unformatted.
\<close>

datatype 'v msg_part = Lit string | Fmt 'v | FmtType 'v

datatype ds_event =
    LogInfo "val msg_part list"
  | CreateOptimizer
  | CreateScheduler int
  | Initialize val bool bool
  | LoadCheckpoint string

record pstate =
  heap :: "obj list"
  zero3_flag :: "bool option"
  events :: "ds_event list"

text \<open>
  What the module reads from outside: \<^verbatim>\<open>sys.argv\<close>, the file system (\<^verbatim>\<open>os.path.exists\<close>,
  \<^verbatim>\<open>io.open\<close> with \<^verbatim>\<open>json.load\<close>, \<^verbatim>\<open>glob.glob\<close>), whether \<^verbatim>\<open>import deepspeed\<close> and
  \<^verbatim>\<open>dep_version_check("deepspeed")\<close> succeed, and the path that the engine's
  \<^verbatim>\<open>load_checkpoint\<close> returns.
\<close>

record env =
  argv :: "string list"
  path_exists :: "string \<Rightarrow> bool"
  read_json :: "string \<Rightarrow> error + pyval"
  glob :: "string \<Rightarrow> string list"
  deepspeed_importable :: bool
  deepspeed_version_ok :: bool
  load_checkpoint :: "string \<Rightarrow> string option"

type_synonym 'a prog = "pstate \<Rightarrow> (error + 'a) \<times> pstate"

definition return :: "'a \<Rightarrow> 'a prog" where
  "return x s = (Inr x, s)"

definition raise :: "error \<Rightarrow> 'a prog" where
  "raise e s = (Inl e, s)"

definition bindP :: "'a prog \<Rightarrow> ('a \<Rightarrow> 'b prog) \<Rightarrow> 'b prog" where
  \<comment> \<open>statement sequencing: an exception ends the run and keeps the state reached\<close>
  "bindP m f s = (case m s of (Inl e, s') \<Rightarrow> (Inl e, s') | (Inr x, s') \<Rightarrow> f x s')"

definition seqP :: "unit prog \<Rightarrow> 'b prog \<Rightarrow> 'b prog" where
  "seqP m n = bindP m (\<lambda>_. n)"

definition liftE :: "error + 'a \<Rightarrow> 'a prog" where
  "liftE r s = (r, s)"

definition emit :: "ds_event \<Rightarrow> unit prog" where
  "emit ev s = (Inr (), s\<lparr>events := events s @ [ev]\<rparr>)"

definition alloc :: "obj \<Rightarrow> val prog" where
  \<comment> \<open>a new object: its address is the next free index of the store\<close>
  "alloc ob s = (Inr (VRef (length (heap s))), s\<lparr>heap := heap s @ [ob]\<rparr>)"

definition heap_get :: "pstate \<Rightarrow> nat \<Rightarrow> obj option" where
  "heap_get s a = (if a < length (heap s) then Some (heap s ! a) else None)"

definition deref :: "pstate \<Rightarrow> val \<Rightarrow> obj option" where
  \<comment> \<open>the object that a value refers to, if it is a reference\<close>
  "deref s v = (case v of VRef a \<Rightarrow> heap_get s a | _ \<Rightarrow> None)"

section \<open>Operations on Python values\<close>

text \<open>
  The operators the module applies to configuration values, with the exceptions Python
  raises when the operand has the wrong type. A configuration read by \<^verbatim>\<open>json.load\<close> can be
  any JSON value, so every operator is defined on all values.
\<close>

fun is_substring :: "string \<Rightarrow> string \<Rightarrow> bool" where
  "is_substring p [] = (p = [])"
| "is_substring p (c # cs) = (take (length p) (c # cs) = p \<or> is_substring p cs)"

definition py_in :: "string \<Rightarrow> val \<Rightarrow> bool prog" where
  \<comment> \<open>\<^verbatim>\<open>k in v\<close> for a string \<open>k\<close>: a key of a dict, an element of a list, a substring of a
      string\<close>
  "py_in k v s =
     (case v of
        VStr str \<Rightarrow> (Inr (is_substring k str), s)
      | _ \<Rightarrow>
          (case deref s v of
             Some (ODict d) \<Rightarrow> (Inr (map_of d k \<noteq> None), s)
           | Some (OList xs) \<Rightarrow> (Inr (VStr k \<in> set xs), s)
           | None \<Rightarrow> (Inl TypeError, s)))"

definition py_getitem :: "val \<Rightarrow> string \<Rightarrow> val prog" where
  \<comment> \<open>\<^verbatim>\<open>v[k]\<close> for a string \<open>k\<close>\<close>
  "py_getitem v k s =
     (case deref s v of
        Some (ODict d) \<Rightarrow>
          (case map_of d k of None \<Rightarrow> (Inl (KeyError k), s) | Some x \<Rightarrow> (Inr x, s))
      | _ \<Rightarrow> (Inl TypeError, s))"

definition py_setitem :: "val \<Rightarrow> string \<Rightarrow> val \<Rightarrow> unit prog" where
  \<comment> \<open>\<^verbatim>\<open>v[k] = x\<close> for a string \<open>k\<close>: the dict that \<open>v\<close> refers to is updated in place\<close>
  "py_setitem v k x s =
     (case v of
        VRef a \<Rightarrow>
          (case heap_get s a of
             Some (ODict d) \<Rightarrow> (Inr (), s\<lparr>heap := (heap s)[a := ODict (AList.update k x d)]\<rparr>)
           | _ \<Rightarrow> (Inl TypeError, s))
      | _ \<Rightarrow> (Inl TypeError, s))"

definition py_get :: "val \<Rightarrow> string \<Rightarrow> val prog" where
  \<comment> \<open>\<^verbatim>\<open>v.get(k)\<close>: only a dict has the method\<close>
  "py_get v k s =
     (case deref s v of
        Some (ODict d) \<Rightarrow> (Inr (case map_of d k of None \<Rightarrow> VNone | Some x \<Rightarrow> x), s)
      | _ \<Rightarrow> (Inl AttributeError, s))"

definition py_keys :: "val \<Rightarrow> string list prog" where
  \<comment> \<open>\<^verbatim>\<open>v.keys()\<close>: only a dict has the method\<close>
  "py_keys v s =
     (case deref s v of
        Some (ODict d) \<Rightarrow> (Inr (map fst d), s)
      | _ \<Rightarrow> (Inl AttributeError, s))"

fun py_eq_int :: "val \<Rightarrow> int \<Rightarrow> bool" where
  \<comment> \<open>\<^verbatim>\<open>v == n\<close> for an integer literal \<open>n\<close>: numbers compare by value, \<^verbatim>\<open>True\<close> is 1 and
      \<^verbatim>\<open>False\<close> is 0, anything else is unequal\<close>
  "py_eq_int (VInt i) n = (i = n)"
| "py_eq_int (VFloat r) n = (r = of_int n)"
| "py_eq_int (VBool b) n = ((if b then 1 else 0) = n)"
| "py_eq_int _ n = False"

section \<open>Copying and loading a configuration\<close>

text \<open>
  \<^verbatim>\<open>copy.deepcopy\<close> of a value built from dicts, lists and immutable data. Every object of
  the store gets a copy at its address shifted by the size of the store, and the
  references inside the copies are shifted alike. The copy of \<open>v\<close> therefore refers to a
  graph of objects of the same shape as the one \<open>v\<close> refers to, shared parts and cycles
  included, and has no object in common with it. (The copies of objects that \<open>v\<close> does not
  reach are referred to by nothing.)
\<close>

definition shift :: "nat \<Rightarrow> val \<Rightarrow> val" where
  "shift n v = (case v of VRef a \<Rightarrow> VRef (a + n) | _ \<Rightarrow> v)"

definition shift_obj :: "nat \<Rightarrow> obj \<Rightarrow> obj" where
  "shift_obj n ob =
     (case ob of
        ODict d \<Rightarrow> ODict (map (\<lambda>(k, v). (k, shift n v)) d)
      | OList xs \<Rightarrow> OList (map (shift n) xs))"

definition deepcopy :: "val \<Rightarrow> val prog" where
  "deepcopy v s =
     (let n = length (heap s)
      in (Inr (shift n v), s\<lparr>heap := heap s @ map (shift_obj n) (heap s)\<rparr>))"

text \<open>
  \<^verbatim>\<open>json.load\<close> builds new objects for the dicts and lists of the document, the inner ones
  first.
\<close>

fun store_tree :: "pyval \<Rightarrow> obj list \<Rightarrow> val \<times> obj list"
  and store_items :: "(string \<times> pyval) list \<Rightarrow> obj list \<Rightarrow> (string \<times> val) list \<times> obj list"
  and store_elems :: "pyval list \<Rightarrow> obj list \<Rightarrow> val list \<times> obj list" where
  "store_tree PNone h = (VNone, h)"
| "store_tree (PBool b) h = (VBool b, h)"
| "store_tree (PInt i) h = (VInt i, h)"
| "store_tree (PFloat r) h = (VFloat r, h)"
| "store_tree (PStr s) h = (VStr s, h)"
| "store_tree (PList xs) h =
     (case store_elems xs h of (vs, h') \<Rightarrow> (VRef (length h'), h' @ [OList vs]))"
| "store_tree (PDict d) h =
     (case store_items d h of (items, h') \<Rightarrow> (VRef (length h'), h' @ [ODict items]))"
| "store_items [] h = ([], h)"
| "store_items ((k, v) # rest) h =
     (case store_tree v h of (v', h1) \<Rightarrow>
        (case store_items rest h1 of (rest', h2) \<Rightarrow> ((k, v') # rest', h2)))"
| "store_elems [] h = ([], h)"
| "store_elems (v # rest) h =
     (case store_tree v h of (v', h1) \<Rightarrow>
        (case store_elems rest h1 of (rest', h2) \<Rightarrow> (v' # rest', h2)))"

definition load_document :: "pyval \<Rightarrow> val prog" where
  "load_document doc s =
     (case store_tree doc (heap s) of (v, h) \<Rightarrow> (Inr v, s\<lparr>heap := h\<rparr>))"

section \<open>The process-wide ZeRO stage 3 flag and \<^verbatim>\<open>deepspeed_parse_config\<close>\<close>

definition deepspeed_parse_config :: "env \<Rightarrow> val \<Rightarrow> val prog" where
  "deepspeed_parse_config e ds_config =
     (if \<not> deepspeed_version_ok e then raise ImportError
      else (\<lambda>s.
        case deref s ds_config of
          Some (ODict d) \<Rightarrow> deepcopy ds_config s
        | _ \<Rightarrow>
            (case ds_config of
               VStr p \<Rightarrow> bindP (liftE (read_json e p)) load_document s
             | _ \<Rightarrow>
                 raise (ValueError
                   ''expecting either a path to a config file or a pre-populated dict'') s)))"

fun index_of :: "'a \<Rightarrow> 'a list \<Rightarrow> nat" where
  \<comment> \<open>\<^verbatim>\<open>xs.index(x)\<close> for an \<open>x\<close> that occurs in \<open>xs\<close>\<close>
  "index_of x [] = 0"
| "index_of x (y # ys) = (if x = y then 0 else Suc (index_of x ys))"

definition argv_at :: "env \<Rightarrow> nat \<Rightarrow> error + string" where
  \<comment> \<open>\<^verbatim>\<open>sys.argv[i]\<close>\<close>
  "argv_at e i = (if i < length (argv e) then Inr (argv e ! i) else Inl IndexError)"

definition set_flag :: "bool \<Rightarrow> unit prog" where
  "set_flag b s = (Inr (), s\<lparr>zero3_flag := Some b\<rparr>)"

text \<open>The test on the parsed configuration in \<^verbatim>\<open>is_deepspeed_zero3_enabled\<close>, with the
  short-circuit evaluation of \<^verbatim>\<open>and\<close>.\<close>

definition config_is_stage3 :: "val \<Rightarrow> bool prog" where
  "config_is_stage3 config =
     bindP (py_in ''zero_optimization'' config) (\<lambda>has_zero.
       if \<not> has_zero then return False
       else
         bindP (py_getitem config ''zero_optimization'') (\<lambda>zero.
         bindP (py_in ''stage'' zero) (\<lambda>has_stage.
           if \<not> has_stage then return False
           else
             bindP (py_getitem config ''zero_optimization'') (\<lambda>zero'.
             bindP (py_getitem zero' ''stage'') (\<lambda>stage.
               return (py_eq_int stage 3))))))"

definition discover_zero3 :: "env \<Rightarrow> unit prog" where
  \<comment> \<open>the body of \<^verbatim>\<open>if "--deepspeed" in sys.argv:\<close>\<close>
  "discover_zero3 e =
     bindP (liftE (argv_at e (index_of ''--deepspeed'' (argv e) + 1))) (\<lambda>ds_config.
       if \<not> path_exists e ds_config
       then raise (ValueError ''--deepspeed requires a valid path to a config file'')
       else
         bindP (deepspeed_parse_config e (VStr ds_config)) (\<lambda>config.
         bindP (config_is_stage3 config) (\<lambda>stage3.
           if stage3 then set_flag True else return ())))"

definition get_flag :: "bool option prog" where
  \<comment> \<open>reading the module-level variable; \<open>None\<close> is Python's \<^verbatim>\<open>None\<close>\<close>
  "get_flag s = (Inr (zero3_flag s), s)"

definition is_deepspeed_zero3_enabled :: "env \<Rightarrow> bool option prog" where
  "is_deepspeed_zero3_enabled e =
     bindP get_flag (\<lambda>flag.
       seqP (if flag = None
             then seqP (set_flag False)
                    (if ''--deepspeed'' \<in> set (argv e) then discover_zero3 e else return ())
             else return ())
         get_flag)"

text \<open>The parameter \<^verbatim>\<open>enable\<close> is a boolean (docstring of \<^verbatim>\<open>deepspeed_zero3_enable\<close>).\<close>

definition deepspeed_zero3_enable :: "bool \<Rightarrow> unit prog" where
  "deepspeed_zero3_enable enable = set_flag enable"

section \<open>\<^verbatim>\<open>deepspeed_init\<close>\<close>

text \<open>
  The fields of \<^verbatim>\<open>trainer\<close> and \<^verbatim>\<open>trainer.args\<close> that \<^verbatim>\<open>deepspeed_init\<close> reads;
  \<^verbatim>\<open>args.deepspeed\<close> is a value: a reference to a dict, the path of a file, or anything
  else. The hidden size is that of \<^verbatim>\<open>model._original_module.config\<close> when \<^verbatim>\<open>args.ort\<close> is set
  and that of \<^verbatim>\<open>model.config\<close> otherwise.
\<close>

record training_args =
  deepspeed :: val
  per_device_train_batch_size :: int
  gradient_accumulation_steps :: int
  max_grad_norm :: rat
  learning_rate :: rat
  adam_beta1 :: rat
  adam_beta2 :: rat
  adam_epsilon :: rat
  weight_decay :: rat
  warmup_steps :: int
  fp16_opt_level :: string
  ort :: bool

record trainer =
  args :: training_args
  fp16_backend :: "string option"
  model_hidden_size :: int
  original_module_hidden_size :: int

text \<open>What \<^verbatim>\<open>deepspeed_init\<close> returns: the engine, the optimizer and the scheduler that
  \<^verbatim>\<open>deepspeed.initialize\<close> gave back, described by the arguments of that call.\<close>

record ds_result =
  engine_config :: val
  optimizer_passed :: bool
  lr_scheduler_passed :: bool

definition bs_keys :: "string list" where
  "bs_keys = [''train_batch_size'', ''train_micro_batch_size_per_gpu'']"

definition bs_keys_message :: string where
  "bs_keys_message = ''Do not include ['train_batch_size', 'train_micro_batch_size_per_gpu'] entries in the ds config file, as they will be set via --per_device_train_batch_size or its default''"

definition accumulation_message :: string where
  "accumulation_message = ''Do not include gradient_accumulation_steps entries in the ds config file, as they will be set via --gradient_accumulation_steps or its default''"

text \<open>Lines 370 to 378: the batch-size and accumulation keys must not be in the configuration.\<close>

definition check_forbidden_keys :: "val \<Rightarrow> unit prog" where
  "check_forbidden_keys config =
     bindP (py_keys config) (\<lambda>keys.
       if length [x \<leftarrow> bs_keys. x \<in> set keys] \<noteq> 0
       then raise (ValueError bs_keys_message)
       else
         bindP (py_keys config) (\<lambda>keys'.
           if ''gradient_accumulation_steps'' \<in> set keys'
           then raise (ValueError accumulation_message)
           else return ()))"

text \<open>Lines 383 and 384: the two values taken from the command-line arguments.\<close>

definition set_batch_args :: "training_args \<Rightarrow> val \<Rightarrow> unit prog" where
  "set_batch_args a config =
     seqP (py_setitem config ''train_micro_batch_size_per_gpu''
             (VInt (per_device_train_batch_size a)))
          (py_setitem config ''gradient_accumulation_steps''
             (VInt (gradient_accumulation_steps a)))"

text \<open>Lines 370 to 384: the check of the forbidden keys, then the merge.\<close>

definition merge_batch_args :: "training_args \<Rightarrow> val \<Rightarrow> unit prog" where
  "merge_batch_args a config =
     seqP (check_forbidden_keys config) (set_batch_args a config)"

text \<open>Lines 386 to 389.\<close>

definition set_gradient_clipping :: "training_args \<Rightarrow> val \<Rightarrow> unit prog" where
  "set_gradient_clipping a config =
     bindP (py_in ''gradient_clipping'' config) (\<lambda>present.
       if present
       then emit (LogInfo [Lit ''Keeping the `gradient_clipping` config intact, ignoring any gradient clipping-specific cl args''])
       else py_setitem config ''gradient_clipping'' (VFloat (max_grad_norm a)))"

text \<open>
  The loop \<^verbatim>\<open>for k, v in params.items()\<close> of lines 415 to 418 and 458 to 461, over the
  items of the dict literal in their order: \<^verbatim>\<open>config[section]["params"]\<close> is looked up for
  the test and again for the assignment.
\<close>

fun override_params :: "val \<Rightarrow> string \<Rightarrow> string \<Rightarrow> (string \<times> val) list \<Rightarrow> unit prog" where
  "override_params config section prefix [] = return ()"
| "override_params config section prefix ((k, v) # rest) =
     bindP (py_getitem config section) (\<lambda>x.
     bindP (py_getitem x ''params'') (\<lambda>y.
     bindP (py_in k y) (\<lambda>present.
       seqP (if present
             then seqP (emit (LogInfo [Lit prefix, Lit k, Lit '' to '', Fmt v]))
                    (bindP (py_getitem config section) (\<lambda>x'.
                     bindP (py_getitem x' ''params'') (\<lambda>y'.
                       py_setitem y' k v)))
             else return ())
            (override_params config section prefix rest))))"

text \<open>Lines 404 to 434. The list \<^verbatim>\<open>[args.adam_beta1, args.adam_beta2]\<close> is a new object. The
  result tells whether the trainer's own optimizer was created (\<^verbatim>\<open>optimizer\<close> is not
  \<^verbatim>\<open>None\<close>).\<close>

definition optimizer_params :: "training_args \<Rightarrow> val \<Rightarrow> (string \<times> val) list" where
  "optimizer_params a betas =
     [(''lr'', VFloat (learning_rate a)),
      (''betas'', betas),
      (''eps'', VFloat (adam_epsilon a)),
      (''weight_decay'', VFloat (weight_decay a))]"

definition zero_offload_requested :: "val \<Rightarrow> bool prog" where
  "zero_offload_requested config =
     bindP (py_in ''zero_optimization'' config) (\<lambda>has_zero.
       if \<not> has_zero then return False
       else
         bindP (py_getitem config ''zero_optimization'') (\<lambda>zero.
         bindP (py_in ''cpu_offload'' zero) (\<lambda>has_offload.
           if \<not> has_offload then return False
           else
             bindP (py_getitem config ''zero_optimization'') (\<lambda>zero'.
             bindP (py_getitem zero' ''cpu_offload'') (\<lambda>offload.
               return (offload = VBool True))))))"

definition setup_optimizer :: "training_args \<Rightarrow> val \<Rightarrow> bool prog" where
  "setup_optimizer a config =
     bindP (py_in ''optimizer'' config) (\<lambda>has_optimizer.
       if has_optimizer then
         seqP (emit (LogInfo [Lit ''Updating the `scheduler` config with other command line arguments'']))
        (bindP (alloc (OList [VFloat (adam_beta1 a), VFloat (adam_beta2 a)])) (\<lambda>betas.
         seqP (override_params config ''optimizer'' ''setting optimizer.params.''
                 (optimizer_params a betas))
              (return False)))
       else
         bindP (zero_offload_requested config) (\<lambda>offload.
           if offload
           then raise (ValueError ''ZeRO Offload can only work with DeepSpeed optimizers'')
           else
             seqP (emit CreateOptimizer)
            (seqP (py_setitem config ''zero_allow_untested_optimizer'' (VBool True))
                  (return True))))"

text \<open>Lines 444 to 470. The result tells whether the trainer's own scheduler was created.\<close>

definition scheduler_params :: "training_args \<Rightarrow> (string \<times> val) list" where
  "scheduler_params a =
     [(''warmup_max_lr'', VFloat (learning_rate a)),
      (''warmup_num_steps'', VInt (warmup_steps a))]"

definition setup_scheduler :: "training_args \<Rightarrow> int \<Rightarrow> val \<Rightarrow> bool prog" where
  "setup_scheduler a num_training_steps config =
     bindP (py_in ''scheduler'' config) (\<lambda>has_scheduler.
       if has_scheduler then
         seqP (emit (LogInfo [Lit ''Updating the `scheduler` config with other command line arguments'']))
        (bindP (py_getitem config ''scheduler'') (\<lambda>x.
         bindP (py_getitem x ''type'') (\<lambda>ty.
         seqP (if ty = VStr ''WarmupDecayLR''
               then seqP (emit (LogInfo [Lit ''setting scheduler.params.total_num_steps to '',
                                         Fmt (VInt num_training_steps)]))
                      (bindP (py_getitem config ''scheduler'') (\<lambda>x'.
                       bindP (py_getitem x' ''params'') (\<lambda>y.
                         py_setitem y ''total_num_steps'' (VInt num_training_steps))))
               else return ())
        (seqP (override_params config ''scheduler'' ''setting scheduler.params.''
                 (scheduler_params a))
              (return False)))))
       else
         bindP (py_in ''optimizer'' config) (\<lambda>has_optimizer.
           if has_optimizer
           then raise (ValueError
                  ''At the moment HF scheduler + DeepSpeed optimizer combination is not possible'')
           else seqP (emit (CreateScheduler num_training_steps)) (return True)))"

text \<open>Lines 473 to 491. The dict assigned to \<^verbatim>\<open>config["amp"]\<close> or \<^verbatim>\<open>config["fp16"]\<close> is a new
  object.\<close>

definition set_unless_present :: "val \<Rightarrow> string \<Rightarrow> obj \<Rightarrow> string \<Rightarrow> unit prog" where
  "set_unless_present config k ob kept =
     bindP (py_in k config) (\<lambda>present.
       if present then emit (LogInfo [Lit kept])
       else bindP (alloc ob) (\<lambda>v. py_setitem config k v))"

definition setup_fp16 :: "trainer \<Rightarrow> val \<Rightarrow> unit prog" where
  "setup_fp16 t config =
     (case fp16_backend t of
        None \<Rightarrow> return ()
      | Some backend \<Rightarrow>
          if backend = ''apex'' then
            set_unless_present config ''amp''
              (ODict [(''enabled'', VBool True),
                      (''opt_level'', VStr (fp16_opt_level (args t)))])
              ''Keeping the `amp` config intact, ignoring any amp-specific cl args''
          else if backend = ''amp'' then
            set_unless_present config ''fp16'' (ODict [(''enabled'', VBool True)])
              ''Keeping the `fp16` config intact, ignoring any fp16-specific cl args''
          else return ())"

text \<open>
  Lines 494 to 507. \<^verbatim>\<open>zero\<close> is the dict that \<^verbatim>\<open>config["zero_optimization"]\<close> refers to. The
  product \<^verbatim>\<open>0.9 * hidden_size * hidden_size\<close> is recorded by its exact value.
\<close>

definition set_if_zero :: "val \<Rightarrow> string \<Rightarrow> val \<Rightarrow> unit prog" where
  \<comment> \<open>\<^verbatim>\<open>if zero.get(k) == 0: zero[k] = v\<close>\<close>
  "set_if_zero zero k v =
     bindP (py_get zero k) (\<lambda>old.
       if py_eq_int old 0 then py_setitem zero k v else return ())"

definition setup_zero :: "trainer \<Rightarrow> val \<Rightarrow> unit prog" where
  "setup_zero t config =
     bindP (py_in ''zero_optimization'' config) (\<lambda>has_zero.
       if has_zero then
         bindP (py_getitem config ''zero_optimization'') (\<lambda>zero.
         bindP (py_get zero ''stage'') (\<lambda>stage.
         seqP (deepspeed_zero3_enable (py_eq_int stage 3))
        (let hidden_size = (if ort (args t) then original_module_hidden_size t
                            else model_hidden_size t)
         in seqP (set_if_zero zero ''reduce_bucket_size'' (VInt (hidden_size * hidden_size)))
           (seqP (set_if_zero zero ''stage3_prefetch_bucket_size''
                    (VFloat (9 / 10 * of_int hidden_size * of_int hidden_size)))
                 (set_if_zero zero ''stage3_param_persistence_threshold''
                    (VInt (10 * hidden_size)))))))
       else return ())"

text \<open>Lines 512 to 520: the call of \<^verbatim>\<open>deepspeed.initialize\<close>.\<close>

definition initialize :: "val \<Rightarrow> bool \<Rightarrow> bool \<Rightarrow> ds_result prog" where
  "initialize config optimizer lr_scheduler =
     seqP (emit (Initialize config optimizer lr_scheduler))
          (return \<lparr>engine_config = config, optimizer_passed = optimizer,
                   lr_scheduler_passed = lr_scheduler\<rparr>)"

text \<open>Lines 522 to 541: resuming from a checkpoint.\<close>

definition resume :: "env \<Rightarrow> string option \<Rightarrow> unit prog" where
  "resume e resume_from_checkpoint =
     (case resume_from_checkpoint of
        None \<Rightarrow> return ()
      | Some path \<Rightarrow>
          let deepspeed_checkpoint_dirs = sort (glob e (path @ ''/global_step*''))
          in if length deepspeed_checkpoint_dirs > 0 then
               seqP (emit (LogInfo [Lit ''Attempting to resume from '', Lit path]))
              (seqP (emit (LoadCheckpoint path))
                    (case load_checkpoint e path of
                       None \<Rightarrow> raise (ValueError
                                 (''[deepspeed] failed to resume from checkpoint '' @ path))
                     | Some load_path \<Rightarrow> return ()))
             else emit (LogInfo [Lit path,
                    Lit '' doesn't have deepspeed checkpoints, doing nothing'']))"

text \<open>Lines 386 to 520: the rest of the configuration, then the engine.\<close>

definition complete_config :: "trainer \<Rightarrow> int \<Rightarrow> val \<Rightarrow> ds_result prog" where
  "complete_config t num_training_steps config =
     seqP (set_gradient_clipping (args t) config)
    (bindP (setup_optimizer (args t) config) (\<lambda>optimizer.
     bindP (setup_scheduler (args t) num_training_steps config) (\<lambda>lr_scheduler.
     seqP (setup_fp16 t config)
    (seqP (setup_zero t config)
          (initialize config optimizer lr_scheduler)))))"

definition deepspeed_init :: "env \<Rightarrow> trainer \<Rightarrow> int \<Rightarrow> string option \<Rightarrow> ds_result prog" where
  "deepspeed_init e t num_training_steps resume_from_checkpoint =
     (if \<not> deepspeed_importable e then raise ImportError
      else
        bindP (deepspeed_parse_config e (deepspeed (args t))) (\<lambda>config.
        seqP (merge_batch_args (args t) config)
       (bindP (complete_config t num_training_steps config) (\<lambda>result.
        seqP (resume e resume_from_checkpoint)
             (return result)))))"

section \<open>Assertions about programs\<close>

definition triple :: "(pstate \<Rightarrow> bool) \<Rightarrow> 'a prog \<Rightarrow> ('a \<Rightarrow> bool) \<Rightarrow> bool" where
  \<comment> \<open>started in a state satisfying \<open>I\<close>, the run ends in one, whatever the outcome, and a
      result it returns satisfies \<open>Q\<close>\<close>
  "triple I m Q = (\<forall>s. I s \<longrightarrow> I (snd (m s)) \<and> (\<forall>x. fst (m s) = Inr x \<longrightarrow> Q x))"

definition obj_vals :: "obj \<Rightarrow> val set" where
  \<comment> \<open>the values an object holds\<close>
  "obj_vals ob = (case ob of ODict d \<Rightarrow> snd ` set d | OList xs \<Rightarrow> set xs)"

definition is_ref :: "val \<Rightarrow> bool" where
  "is_ref v = (case v of VRef a \<Rightarrow> True | _ \<Rightarrow> False)"

text \<open>
  What a proof about \<^verbatim>\<open>deepspeed_init\<close> needs from the primitive steps, for an invariant \<open>I\<close>
  of the state and a property \<open>F\<close> of the values the program handles that all immutable
  values have: logging and setting the flag keep \<open>I\<close>; so do an assignment of such a value
  through such a reference under a key other than the two of the merge, and the creation
  of an object holding such values; and what is read through such a reference is such a
  value again.
\<close>

definition steps_keep :: "(pstate \<Rightarrow> bool) \<Rightarrow> (val \<Rightarrow> bool) \<Rightarrow> bool" where
  "steps_keep I F =
     ((\<forall>v. \<not> is_ref v \<longrightarrow> F v)
      \<and> (\<forall>ev. triple I (emit ev) (\<lambda>_. True))
      \<and> (\<forall>b. triple I (set_flag b) (\<lambda>_. True))
      \<and> (\<forall>v k x. F v \<longrightarrow> F x \<longrightarrow> k \<noteq> ''train_micro_batch_size_per_gpu''
            \<longrightarrow> k \<noteq> ''gradient_accumulation_steps''
            \<longrightarrow> triple I (py_setitem v k x) (\<lambda>_. True))
      \<and> (\<forall>ob. (\<forall>v \<in> obj_vals ob. F v) \<longrightarrow> triple I (alloc ob) F)
      \<and> (\<forall>v k. F v \<longrightarrow> triple I (py_getitem v k) F)
      \<and> (\<forall>v k. F v \<longrightarrow> triple I (py_get v k) F))"

text \<open>The dict at address \<open>c\<close> holds the two values of the merge.\<close>

definition has_batch_args :: "training_args \<Rightarrow> nat \<Rightarrow> pstate \<Rightarrow> bool" where
  "has_batch_args a c s =
     (case heap_get s c of
        Some (ODict items) \<Rightarrow>
          map_of items ''train_micro_batch_size_per_gpu'' =
            Some (VInt (per_device_train_batch_size a))
          \<and> map_of items ''gradient_accumulation_steps'' =
            Some (VInt (gradient_accumulation_steps a))
      | _ \<Rightarrow> False)"

text \<open>
  A value that is not a reference below the address \<open>n\<close>, and the invariant of a run whose
  objects from \<open>n\<close> on refer only to objects from \<open>n\<close> on: the objects below \<open>n\<close> are the
  given ones.
\<close>

definition above :: "nat \<Rightarrow> val \<Rightarrow> bool" where
  "above n v = (case v of VRef a \<Rightarrow> n \<le> a | _ \<Rightarrow> True)"

definition frame_inv :: "nat \<Rightarrow> obj list \<Rightarrow> pstate \<Rightarrow> bool" where
  "frame_inv n h s =
     (n \<le> length (heap s) \<and> take n (heap s) = h
      \<and> (\<forall>a. n \<le> a \<longrightarrow> a < length (heap s) \<longrightarrow> (\<forall>v \<in> obj_vals (heap s ! a). above n v)))"

section \<open>The \<^verbatim>\<open>on_log\<close> hooks of the callbacks\<close>

text \<open>
  The calls a callback makes to its backing service, and the warnings it logs, are
  recorded in order. \<^verbatim>\<open>logs\<close> is a dict or \<^verbatim>\<open>None\<close> (the default of the parameter). The
  setup of the Weights and Biases and MLflow clients, which talks to the SDK only, is
  recorded as one event.
\<close>

datatype cb_event =
    Warning "pyval msg_part list"
  | CreateWriter string
  | AddScalar string pyval int
  | Flush
  | WandbSetup
  | WandbLog "pyval dict"
  | MlflowSetup
  | LogMetric string pyval int
  | AzureLog string pyval string

record trainer_state =
  is_world_process_zero :: bool
  global_step :: int

fun is_number :: "pyval \<Rightarrow> bool" where
  \<comment> \<open>\<^verbatim>\<open>isinstance(v, (int, float))\<close>; \<^verbatim>\<open>bool\<close> is a subclass of \<^verbatim>\<open>int\<close>\<close>
  "is_number (PInt i) = True"
| "is_number (PFloat r) = True"
| "is_number (PBool b) = True"
| "is_number _ = False"

subsection \<open>\<^verbatim>\<open>TensorBoardCallback\<close>\<close>

text \<open>\<open>tb_writer\<close> is the writer, named by its log directory; \<open>summary_writer_available\<close> tells
  whether \<^verbatim>\<open>self._SummaryWriter\<close> is a class (not \<^verbatim>\<open>None\<close>).\<close>

record tensorboard_callback =
  tb_writer :: "string option"
  summary_writer_available :: bool

definition init_summary_writer ::
  "string \<Rightarrow> string option \<Rightarrow> tensorboard_callback \<Rightarrow> tensorboard_callback \<times> cb_event list" where
  "init_summary_writer logging_dir log_dir cb =
     (let dir = (case log_dir of None \<Rightarrow> logging_dir
                 | Some d \<Rightarrow> if d = [] then logging_dir else d)
      in if summary_writer_available cb
         then (cb\<lparr>tb_writer := Some dir\<rparr>, [CreateWriter dir])
         else (cb, []))"

definition tensorboard_warning :: "string \<Rightarrow> pyval \<Rightarrow> cb_event" where
  "tensorboard_warning k v =
     Warning [Lit ''Trainer is attempting to log a value of \"'', Fmt v,
              Lit ''\" of type '', FmtType v, Lit '' for key \"'', Lit k,
              Lit ''\" as a scalar. This invocation of Tensorboard's writer.add_scalar() is incorrect so we dropped this attribute.'']"

fun tensorboard_log_items :: "int \<Rightarrow> pyval dict \<Rightarrow> cb_event list" where
  \<comment> \<open>the loop over \<^verbatim>\<open>logs.items()\<close>\<close>
  "tensorboard_log_items step [] = []"
| "tensorboard_log_items step ((k, v) # rest) =
     (if is_number v then AddScalar k v step else tensorboard_warning k v)
       # tensorboard_log_items step rest"

definition tensorboard_on_log ::
  "string \<Rightarrow> trainer_state \<Rightarrow> pyval dict option \<Rightarrow> tensorboard_callback
     \<Rightarrow> (error + unit) \<times> tensorboard_callback \<times> cb_event list" where
  "tensorboard_on_log logging_dir state logs cb =
     (if \<not> is_world_process_zero state then (Inr (), cb, [])
      else
        let (cb1, ev1) = (if tb_writer cb = None then init_summary_writer logging_dir None cb
                          else (cb, []))
        in if tb_writer cb1 \<noteq> None then
             (case logs of
                None \<Rightarrow> (Inl AttributeError, cb1, ev1)
              | Some d \<Rightarrow>
                  (Inr (), cb1,
                   ev1 @ tensorboard_log_items (global_step state) (rewrite_logs d) @ [Flush]))
           else (Inr (), cb1, ev1))"

subsection \<open>\<^verbatim>\<open>WandbCallback\<close>\<close>

record wandb_callback =
  wandb_present :: bool
  wandb_initialized :: bool

definition wandb_setup :: "trainer_state \<Rightarrow> wandb_callback \<Rightarrow> wandb_callback \<times> cb_event list" where
  "wandb_setup state cb =
     (if \<not> wandb_present cb then (cb, [])
      else (cb\<lparr>wandb_initialized := True\<rparr>,
            if is_world_process_zero state then [WandbSetup] else []))"

definition wandb_on_log ::
  "trainer_state \<Rightarrow> pyval dict option \<Rightarrow> wandb_callback
     \<Rightarrow> (error + unit) \<times> wandb_callback \<times> cb_event list" where
  "wandb_on_log state logs cb =
     (if \<not> wandb_present cb then (Inr (), cb, [])
      else
        let (cb1, ev1) = (if \<not> wandb_initialized cb then wandb_setup state cb else (cb, []))
        in if is_world_process_zero state then
             (case logs of
                None \<Rightarrow> (Inl AttributeError, cb1, ev1)
              | Some d \<Rightarrow>
                  (Inr (), cb1,
                   ev1 @ [WandbLog (AList.update ''train/global_step'' (PInt (global_step state))
                                      (rewrite_logs d))]))
           else (Inr (), cb1, ev1))"

subsection \<open>\<^verbatim>\<open>MLflowCallback\<close>\<close>

record mlflow_callback =
  mlflow_initialized :: bool

definition mlflow_setup :: "trainer_state \<Rightarrow> mlflow_callback \<Rightarrow> mlflow_callback \<times> cb_event list" where
  "mlflow_setup state cb =
     (cb\<lparr>mlflow_initialized := True\<rparr>,
      if is_world_process_zero state then [MlflowSetup] else [])"

definition mlflow_warning :: "string \<Rightarrow> pyval \<Rightarrow> cb_event" where
  "mlflow_warning k v =
     Warning [Lit ''Trainer is attempting to log a value of \"'', Fmt v,
              Lit ''\" of type '', FmtType v, Lit '' for key \"'', Lit k,
              Lit ''\" as a metric. MLflow's log_metric() only accepts float and int types so we dropped this attribute.'']"

fun mlflow_log_items :: "int \<Rightarrow> pyval dict \<Rightarrow> cb_event list" where
  "mlflow_log_items step [] = []"
| "mlflow_log_items step ((k, v) # rest) =
     (if is_number v then LogMetric k v step else mlflow_warning k v)
       # mlflow_log_items step rest"

definition mlflow_on_log ::
  "trainer_state \<Rightarrow> pyval dict option \<Rightarrow> mlflow_callback
     \<Rightarrow> (error + unit) \<times> mlflow_callback \<times> cb_event list" where
  "mlflow_on_log state logs cb =
     (let (cb1, ev1) = (if \<not> mlflow_initialized cb then mlflow_setup state cb else (cb, []))
      in if is_world_process_zero state then
           (case logs of
              None \<Rightarrow> (Inl AttributeError, cb1, ev1)
            | Some d \<Rightarrow> (Inr (), cb1, ev1 @ mlflow_log_items (global_step state) d))
         else (Inr (), cb1, ev1))"

subsection \<open>\<^verbatim>\<open>AzureMLCallback\<close>\<close>

text \<open>\<open>azureml_run\<close> tells whether \<^verbatim>\<open>self.azureml_run\<close> is set (a run object is true).\<close>

record azureml_callback =
  azureml_run :: bool

fun azureml_log_items :: "pyval dict \<Rightarrow> cb_event list" where
  "azureml_log_items [] = []"
| "azureml_log_items ((k, v) # rest) =
     (if is_number v then AzureLog k v k # azureml_log_items rest
      else azureml_log_items rest)"

definition azureml_on_log ::
  "pyval dict option \<Rightarrow> azureml_callback \<Rightarrow> (error + unit) \<times> azureml_callback \<times> cb_event list" where
  "azureml_on_log logs cb =
     (if azureml_run cb then
        (case logs of
           None \<Rightarrow> (Inl AttributeError, cb, [])
         | Some d \<Rightarrow> (Inr (), cb, azureml_log_items d))
      else (Inr (), cb, []))"

section \<open>\<^verbatim>\<open>run_hp_search_ray\<close>\<close>

text \<open>
  Modelled from the spec: \<^verbatim>\<open>IntervalStrategy\<close> is declared in \<^verbatim>\<open>trainer_utils\<close>, which is not
  among the sources; the function compares \<^verbatim>\<open>evaluation_strategy\<close> with its member \<^verbatim>\<open>NO\<close>
  only.
\<close>

datatype interval_strategy = NO | STEPS | EPOCH

text \<open>
  A scheduler object: the class among the four named by the function that it is an
  instance of (or none of them), and the name of its own class.
\<close>

datatype scheduler_class =
    ASHAScheduler
  | MedianStoppingRule
  | HyperBandForBOHB
  | PopulationBasedTraining
  | OtherScheduler

datatype scheduler = Scheduler scheduler_class string

fun instance_of :: "scheduler \<Rightarrow> scheduler_class" where
  "instance_of (Scheduler c name) = c"

fun type_name :: "scheduler \<Rightarrow> string" where
  "type_name (Scheduler c name) = name"

text \<open>The values of the keyword arguments that the function inspects.\<close>

datatype kwarg =
    KInt int
  | KResources "(string \<times> int) list"
  | KScheduler scheduler
  | KProgressReporter
  | KOther

type_synonym kwargs = "(string \<times> kwarg) list"

datatype ray_part = Txt string | Kw kwarg

datatype ray_event =
    RayInfo "ray_part list"
  | RayWarning "ray_part list"
  | TuneRun int kwargs

record search_args =
  n_gpu :: int
  private_n_gpu :: int
  do_eval :: bool
  evaluation_strategy :: interval_strategy

text \<open>\<open>model_loaded\<close> tells whether \<^verbatim>\<open>trainer.model\<close> is set; \<open>private_n_gpu\<close> is
  \<^verbatim>\<open>trainer.args._n_gpu\<close>.\<close>

record search_trainer =
  search_args :: search_args
  callbacks :: "callback_class list"
  model_loaded :: bool
  use_tune_checkpoints :: bool

record best_run =
  run_id :: string
  objective :: rat
  hyperparameters :: "pyval dict"

text \<open>What comes from Ray: whether \<^verbatim>\<open>import ray\<close> succeeds and the best trial that
  \<^verbatim>\<open>ray.tune.run\<close> reports.\<close>

record ray_env =
  ray_importable :: bool
  best_trial :: best_run

text \<open>
  Modelled from the spec: \<^verbatim>\<open>Trainer.pop_callback\<close> is not among the sources. It removes the
  first callback of the given class and returns it, or returns \<^verbatim>\<open>None\<close>.
\<close>

definition pop_callback ::
  "callback_class \<Rightarrow> callback_class list \<Rightarrow> callback_class option \<times> callback_class list" where
  "pop_callback c cbs = (if c \<in> set cbs then (Some c, remove1 c cbs) else (None, cbs))"

text \<open>Lines 177 to 187: the default of \<^verbatim>\<open>resources_per_trial\<close>.\<close>

definition default_resources :: "search_trainer \<Rightarrow> kwargs \<Rightarrow> kwargs \<times> ray_event list" where
  "default_resources trainer kwargs =
     (if map_of kwargs ''resources_per_trial'' = None then
        (AList.update ''resources_per_trial''
           (KResources (if n_gpu (search_args trainer) > 0 then [(''cpu'', 1), (''gpu'', 1)]
                        else [(''cpu'', 1)])) kwargs,
         [RayInfo [Txt ''No `resources_per_trial` arg was passed into `hyperparameter_search`. Setting it to a default value of '',
                   Txt (''1 CPU'' @ (if n_gpu (search_args trainer) > 0 then '' and 1 GPU'' else '''')),
                   Txt '' for each trial.'']])
      else (kwargs, []))"

text \<open>Line 189: \<^verbatim>\<open>kwargs["resources_per_trial"].get("gpu", 0)\<close>.\<close>

definition gpus_per_trial :: "kwargs \<Rightarrow> error + int" where
  "gpus_per_trial kwargs =
     (case map_of kwargs ''resources_per_trial'' of
        None \<Rightarrow> Inl (KeyError ''resources_per_trial'')
      | Some (KResources d) \<Rightarrow> Inr (case map_of d ''gpu'' of None \<Rightarrow> 0 | Some g \<Rightarrow> g)
      | Some _ \<Rightarrow> Inl AttributeError)"

text \<open>Lines 193 to 196.\<close>

definition default_progress_reporter :: "kwargs \<Rightarrow> kwargs" where
  "default_progress_reporter kwargs =
     (if map_of kwargs ''progress_reporter'' = None
      then AList.update ''progress_reporter'' KProgressReporter kwargs
      else kwargs)"

text \<open>
  Lines 197 to 205. The warning formats \<^verbatim>\<open>kwargs['keep_checkpoint_num']\<close>, a key without the
  \<open>s\<close> of \<open>keep_checkpoints_num\<close>; a missing key raises \<^verbatim>\<open>KeyError\<close>.
\<close>

definition setup_checkpoints ::
  "kwargs \<Rightarrow> search_trainer \<Rightarrow> (error + unit) \<times> search_trainer \<times> ray_event list" where
  "setup_checkpoints kwargs trainer =
     (case map_of kwargs ''keep_checkpoints_num'' of
        None \<Rightarrow> (Inr (), trainer, [])
      | Some (KInt k) \<Rightarrow>
          if k > 0 then
            let trainer' = trainer\<lparr>use_tune_checkpoints := True\<rparr>
            in if k > 1 then
                 (case map_of kwargs ''keep_checkpoint_num'' of
                    None \<Rightarrow> (Inl (KeyError ''keep_checkpoint_num''), trainer', [])
                  | Some v \<Rightarrow>
                      (Inr (), trainer',
                       [RayWarning [Txt ''Currently keeping '', Kw v,
                          Txt '' checkpoints for each trial. Checkpoints are usually huge, consider setting `keep_checkpoints_num=1`.'']]))
               else (Inr (), trainer', [])
          else (Inr (), trainer, [])
      | Some _ \<Rightarrow> (Inl TypeError, trainer, []))"

text \<open>Lines 206 to 230: the checks on the scheduler.\<close>

definition is_scheduler_instance :: "kwarg \<Rightarrow> scheduler_class set \<Rightarrow> bool" where
  \<comment> \<open>\<^verbatim>\<open>isinstance(kwargs["scheduler"], classes)\<close>\<close>
  "is_scheduler_instance v classes =
     (case v of KScheduler s \<Rightarrow> instance_of s \<in> classes \<and> instance_of s \<noteq> OtherScheduler
      | _ \<Rightarrow> False)"

definition kwarg_type_name :: "kwarg \<Rightarrow> string" where
  \<comment> \<open>\<^verbatim>\<open>type(kwargs["scheduler"]).__name__\<close>, needed for a scheduler only\<close>
  "kwarg_type_name v = (case v of KScheduler s \<Rightarrow> type_name s | _ \<Rightarrow> [])"

definition no_evaluation_message :: "string \<Rightarrow> string" where
  "no_evaluation_message cls =
     ''You are using '' @ cls @ '' as a scheduler but you haven't enabled evaluation during training. This means your trials will not report intermediate results to Ray Tune, and can thus not be stopped early or used to exploit other trials parameters. If this is what you want, do not use '' @ cls @ ''. If you would like to use '' @ cls @ '', make sure you pass `do_eval=True` and `evaluation_strategy='steps'` in the Trainer `args`.''"

definition check_scheduler ::
  "kwargs \<Rightarrow> search_trainer \<Rightarrow> (error + unit) \<times> ray_event list" where
  "check_scheduler kwargs trainer =
     (case map_of kwargs ''scheduler'' of
        None \<Rightarrow> (Inr (), [])
      | Some v \<Rightarrow>
          let ev = (if is_scheduler_instance v {PopulationBasedTraining}
                       \<and> \<not> use_tune_checkpoints trainer
                    then [RayWarning [Txt ''You are using PopulationBasedTraining but you haven't enabled checkpointing. This means your trials will train from scratch everytime they are exploiting new configurations. Consider enabling checkpointing by passing `keep_checkpoints_num=1` as an additional argument to `Trainer.hyperparameter_search`.'']]
                    else [])
          in if is_scheduler_instance v
                  {ASHAScheduler, MedianStoppingRule, HyperBandForBOHB, PopulationBasedTraining}
                \<and> (\<not> do_eval (search_args trainer)
                    \<or> evaluation_strategy (search_args trainer) = NO)
             then (Inl (RuntimeError (no_evaluation_message (kwarg_type_name v))), ev)
             else (Inr (), ev))"

definition run_hp_search_ray ::
  "ray_env \<Rightarrow> search_trainer \<Rightarrow> int \<Rightarrow> string \<Rightarrow> kwargs
     \<Rightarrow> (error + best_run) \<times> search_trainer \<times> ray_event list" where
  "run_hp_search_ray e trainer n_trials direction kwargs =
     (if \<not> ray_importable e then (Inl ImportError, trainer, [])
      else
        let (tb_writer, cbs) = pop_callback TensorBoardCallback (callbacks trainer);
            trainer1 = trainer\<lparr>callbacks := cbs, model_loaded := False\<rparr>;
            (kwargs1, ev1) = default_resources trainer1 kwargs
        in case gpus_per_trial kwargs1 of
             Inl err \<Rightarrow> (Inl err, trainer1, ev1)
           | Inr gpus \<Rightarrow>
               let trainer2 = trainer1\<lparr>search_args :=
                                (search_args trainer1)\<lparr>private_n_gpu := gpus\<rparr>\<rparr>;
                   kwargs2 = default_progress_reporter kwargs1
               in case setup_checkpoints kwargs2 trainer2 of
                    (Inl err, trainer3, ev3) \<Rightarrow> (Inl err, trainer3, ev1 @ ev3)
                  | (Inr u, trainer3, ev3) \<Rightarrow>
                      (case check_scheduler kwargs2 trainer3 of
                         (Inl err, ev4) \<Rightarrow> (Inl err, trainer3, ev1 @ ev3 @ ev4)
                       | (Inr u', ev4) \<Rightarrow>
                           (Inr (best_trial e),
                            (case tb_writer of
                               None \<Rightarrow> trainer3
                             | Some w \<Rightarrow> trainer3\<lparr>callbacks := callbacks trainer3 @ [w]\<rparr>),
                            ev1 @ ev3 @ ev4 @ [TuneRun n_trials kwargs2])))"

section \<open>Concrete inputs\<close>

text \<open>A process started as \<^verbatim>\<open>run.py --deepspeed ds.json\<close>, where the file \<^verbatim>\<open>ds.json\<close> holds
  a configuration with ZeRO stage 3, and the initial state of the module.\<close>

definition example_env :: env where
  "example_env =
     \<lparr>argv = [''run.py'', ''--deepspeed'', ''ds.json''],
      path_exists = (\<lambda>p. p = ''ds.json''),
      read_json = (\<lambda>p. if p = ''ds.json''
                          then Inr (PDict [(''zero_optimization'', PDict [(''stage'', PInt 3)])])
                          else Inl OSError),
      glob = (\<lambda>p. []),
      deepspeed_importable = True,
      deepspeed_version_ok = True,
      load_checkpoint = (\<lambda>p. None)\<rparr>"

definition initial_state :: pstate where
  "initial_state = \<lparr>heap = [], zero3_flag = None, events = []\<rparr>"

text \<open>A trainer whose \<^verbatim>\<open>args.deepspeed\<close> refers to the dict at address 0, with per-device batch
  size 8 and gradient accumulation 2, and states where that dict is \<^verbatim>\<open>{}\<close> and
  \<^verbatim>\<open>{"train_batch_size": 16}\<close>.\<close>

definition example_args :: training_args where
  "example_args =
     \<lparr>deepspeed = VRef 0,
      per_device_train_batch_size = 8,
      gradient_accumulation_steps = 2,
      max_grad_norm = 1,
      learning_rate = 1 / 20000,
      adam_beta1 = 9 / 10,
      adam_beta2 = 999 / 1000,
      adam_epsilon = 1 / 100000000,
      weight_decay = 0,
      warmup_steps = 0,
      fp16_opt_level = ''O1'',
      ort = False\<rparr>"

definition example_trainer :: trainer where
  "example_trainer =
     \<lparr>args = example_args, fp16_backend = None, model_hidden_size = 768,
      original_module_hidden_size = 768\<rparr>"

definition empty_config_state :: pstate where
  "empty_config_state = \<lparr>heap = [ODict []], zero3_flag = None, events = []\<rparr>"

definition batch_size_config_state :: pstate where
  "batch_size_config_state =
     \<lparr>heap = [ODict [(''train_batch_size'', VInt 16)]], zero3_flag = None, events = []\<rparr>"

text \<open>A state where the dict at address 0 is
  \<^verbatim>\<open>{"optimizer": {"type": "AdamW", "params": {"lr": 0}}}\<close>, the inner dicts at addresses 1
  and 2.\<close>

definition nested_config_state :: pstate where
  "nested_config_state =
     \<lparr>heap = [ODict [(''optimizer'', VRef 1)],
              ODict [(''type'', VStr ''AdamW''), (''params'', VRef 2)],
              ODict [(''lr'', VInt 0)]],
      zero3_flag = None, events = []\<rparr>"

text \<open>An environment where the checkpoint directory has a \<^verbatim>\<open>global_step5\<close> entry and the
  engine's \<^verbatim>\<open>load_checkpoint\<close> returns no load path.\<close>

definition failing_load_env :: env where
  "failing_load_env = example_env\<lparr>glob := (\<lambda>p. [''ckpt/global_step5''])\<rparr>"

text \<open>A hyperparameter search with Ray: evaluation is off, and the call passes an ASHA
  scheduler; in the second set of keyword arguments it also passes
  \<^verbatim>\<open>keep_checkpoints_num=2\<close>.\<close>

definition example_ray_env :: ray_env where
  "example_ray_env =
     \<lparr>ray_importable = True,
      best_trial = \<lparr>run_id = ''0'', objective = 0, hyperparameters = []\<rparr>\<rparr>"

definition example_search_trainer :: search_trainer where
  "example_search_trainer =
     \<lparr>search_args = \<lparr>n_gpu = 0, private_n_gpu = 0, do_eval = False,
                      evaluation_strategy = NO\<rparr>,
      callbacks = [TensorBoardCallback],
      model_loaded = True,
      use_tune_checkpoints = False\<rparr>"

definition asha_kwargs :: kwargs where
  "asha_kwargs = [(''scheduler'', KScheduler (Scheduler ASHAScheduler ''AsyncHyperBandScheduler''))]"

definition asha_keep2_kwargs :: kwargs where
  "asha_keep2_kwargs =
     [(''scheduler'', KScheduler (Scheduler ASHAScheduler ''AsyncHyperBandScheduler'')),
      (''keep_checkpoints_num'', KInt 2)]"

text \<open>A log record with a number and a string, on the reporting process at step 7, and
  callbacks that have not been set up yet.\<close>

definition example_logs :: "pyval dict" where
  "example_logs = [(''loss'', PFloat (1 / 2)), (''note'', PStr ''x'')]"

definition reporting_state :: trainer_state where
  "reporting_state = \<lparr>is_world_process_zero = True, global_step = 7\<rparr>"

definition new_tensorboard :: tensorboard_callback where
  "new_tensorboard = \<lparr>tb_writer = None, summary_writer_available = True\<rparr>"

definition new_wandb :: wandb_callback where
  "new_wandb = \<lparr>wandb_present = True, wandb_initialized = False\<rparr>"

definition new_mlflow :: mlflow_callback where
  "new_mlflow = \<lparr>mlflow_initialized = False\<rparr>"

definition azureml_with_run :: azureml_callback where
  "azureml_with_run = \<lparr>azureml_run = True\<rparr>"

section \<open>Rules for programs\<close>

lemma tripleD: "triple I m Q \<Longrightarrow> I s \<Longrightarrow> I (snd (m s))"
  by (simp add: triple_def)

lemma triple_result: "triple I m Q \<Longrightarrow> I s \<Longrightarrow> m s = (Inr x, s') \<Longrightarrow> I s' \<and> Q x"
  by (auto simp: triple_def)

lemma triple_return: "Q x \<Longrightarrow> triple I (return x) Q"
  by (simp add: triple_def return_def)

lemma triple_raise: "triple I (raise e) Q"
  by (simp add: triple_def raise_def)

lemma triple_liftE: "triple I (liftE r) (\<lambda>_. True)"
  by (simp add: triple_def liftE_def)

lemma triple_get_flag: "triple I get_flag (\<lambda>_. True)"
  by (simp add: triple_def get_flag_def)

lemma triple_bind:
  assumes "triple I m Q" and "\<And>x. Q x \<Longrightarrow> triple I (f x) R"
  shows "triple I (bindP m f) R"
  unfolding triple_def
proof (intro allI impI)
  fix s assume s: "I s"
  obtain r s1 where run: "m s = (r, s1)" by (cases "m s")
  from assms(1) s run have s1: "I s1" by (auto simp: triple_def)
  show "I (snd (bindP m f s)) \<and> (\<forall>x. fst (bindP m f s) = Inr x \<longrightarrow> R x)"
  proof (cases r)
    case (Inl err)
    with run s1 show ?thesis by (simp add: bindP_def)
  next
    case (Inr x)
    with assms(1) s run have "Q x" by (auto simp: triple_def)
    from assms(2) [OF this] s1 have "I (snd (f x s1)) \<and> (\<forall>y. fst (f x s1) = Inr y \<longrightarrow> R y)"
      by (simp add: triple_def)
    with run Inr show ?thesis by (simp add: bindP_def)
  qed
qed

lemma triple_seq:
  "triple I m Q \<Longrightarrow> triple I n R \<Longrightarrow> triple I (seqP m n) R"
  unfolding seqP_def by (rule triple_bind)

lemma triple_if:
  "(b \<Longrightarrow> triple I m Q) \<Longrightarrow> (\<not> b \<Longrightarrow> triple I n Q) \<Longrightarrow> triple I (if b then m else n) Q"
  by simp

lemma triple_case_option:
  "(x = None \<Longrightarrow> triple I m Q) \<Longrightarrow> (\<And>y. x = Some y \<Longrightarrow> triple I (f y) Q) \<Longrightarrow>
   triple I (case x of None \<Rightarrow> m | Some y \<Rightarrow> f y) Q"
  by (cases x) simp_all

lemma triple_weaken: "triple I m Q \<Longrightarrow> (\<And>x. Q x \<Longrightarrow> R x) \<Longrightarrow> triple I m R"
  by (simp add: triple_def)

text \<open>Reading the store changes nothing.\<close>

lemma triple_py_in: "triple I (py_in k v) (\<lambda>_. True)"
  by (simp add: triple_def py_in_def split: val.splits option.splits obj.splits)

lemma triple_py_keys: "triple I (py_keys v) (\<lambda>_. True)"
  by (simp add: triple_def py_keys_def split: option.splits obj.splits)

lemma triple_py_getitem_any: "triple I (py_getitem v k) (\<lambda>_. True)"
  by (simp add: triple_def py_getitem_def split: option.splits obj.splits)

lemma triple_py_get_any: "triple I (py_get v k) (\<lambda>_. True)"
  by (simp add: triple_def py_get_def split: option.splits obj.splits)

lemma bindP_Inr:
  assumes "bindP m f s = (Inr r, s')"
  obtains x s1 where "m s = (Inr x, s1)" and "f x s1 = (Inr r, s')"
  using assms by (auto simp: bindP_def split: prod.splits sum.splits)

lemma seqP_Inr:
  assumes "seqP m n s = (Inr r, s')"
  obtains s1 where "m s = (Inr (), s1)" and "n s1 = (Inr r, s')"
  using assms unfolding seqP_def by (auto elim: bindP_Inr)

lemma bindP_Inr_eq: "m s = (Inr x, s1) \<Longrightarrow> bindP m f s = f x s1"
  by (simp add: bindP_def)

lemma bindP_Inl_eq: "m s = (Inl err, s1) \<Longrightarrow> bindP m f s = (Inl err, s1)"
  by (simp add: bindP_def)

lemma seqP_Inr_eq: "m s = (Inr (), s1) \<Longrightarrow> seqP m n s = n s1"
  by (simp add: seqP_def bindP_def)

lemma seqP_Inl_eq: "m s = (Inl err, s1) \<Longrightarrow> seqP m n s = (Inl err, s1)"
  by (simp add: seqP_def bindP_def)

text \<open>The defining equations used to run a program on a concrete input.\<close>

lemmas prog_eval =
  return_def raise_def bindP_def seqP_def liftE_def emit_def alloc_def heap_get_def deref_def
  py_in_def py_getitem_def py_setitem_def py_get_def py_keys_def get_flag_def set_flag_def
  deepcopy_def shift_def shift_obj_def load_document_def

lemmas ds_eval =
  deepspeed_init_def deepspeed_parse_config_def merge_batch_args_def
  check_forbidden_keys_def bs_keys_def set_batch_args_def complete_config_def
  set_gradient_clipping_def setup_optimizer_def zero_offload_requested_def
  optimizer_params_def setup_scheduler_def scheduler_params_def
  set_unless_present_def setup_fp16_def set_if_zero_def
  setup_zero_def deepspeed_zero3_enable_def initialize_def resume_def

lemmas example_defs =
  example_env_def initial_state_def example_args_def example_trainer_def
  empty_config_state_def batch_size_config_state_def nested_config_state_def

section \<open>Properties of \<^verbatim>\<open>rewrite_logs\<close>\<close>

lemma update_fresh_key:
  "k \<notin> fst ` set al \<Longrightarrow> AList.update k v al = al @ [(k, v)]"
  by (induction al) auto

text \<open>The key that the loop body stores, written out with the prefix length.\<close>

lemma rewrite_item_update:
  "rewrite_item (k, v) new_d =
     AList.update (if take 5 k = ''eval_'' then ''eval/'' @ drop 5 k else ''train/'' @ k) v new_d"
  by (simp add: rewrite_item_def startswith_def eval_prefix_def eval_prefix_len_def
      eval_nat_numeral)

text \<open>
  Two different keys are never rewritten to the same key: the two prefixes differ in
  their first character, and within one branch the remainder determines the key.
\<close>

lemma rewritten_key_inject:
  assumes "(if take 5 a = ''eval_'' then ''eval/'' @ drop 5 a else ''train/'' @ a) =
           (if take 5 b = ''eval_'' then ''eval/'' @ drop 5 b else ''train/'' @ b)"
  shows "a = b"
proof (cases "take 5 a = ''eval_''")
  case True
  with assms have b: "take 5 b = ''eval_''" and d: "drop 5 a = drop 5 b"
    by (auto split: if_splits)
  have "a = take 5 a @ drop 5 a" by simp
  also have "\<dots> = take 5 b @ drop 5 b" using True b d by simp
  finally show ?thesis by simp
next
  case False
  with assms show ?thesis by (auto split: if_splits)
qed

lemma fold_rewrite_item:
  fixes d :: "'v dict"
  defines "nk \<equiv> \<lambda>k. if take 5 k = ''eval_'' then ''eval/'' @ drop 5 k else ''train/'' @ k"
  assumes "distinct (map fst d)" and "nk ` fst ` set d \<inter> fst ` set acc = {}"
  shows "fold rewrite_item d acc = acc @ map (\<lambda>(k, v). (nk k, v)) d"
  using assms(2,3)
proof (induction d arbitrary: acc)
  case Nil
  then show ?case by simp
next
  case (Cons p d)
  obtain k v where p: "p = (k, v)" by (cases p)
  have inj: "\<And>a b. nk a = nk b \<Longrightarrow> a = b"
    unfolding nk_def by (rule rewritten_key_inject)
  have fresh: "nk k \<notin> fst ` set acc"
    using Cons.prems(2) p by auto
  have step: "rewrite_item (k, v) acc = acc @ [(nk k, v)]"
    using fresh by (simp add: rewrite_item_update update_fresh_key nk_def)
  have "nk ` fst ` set d \<inter> fst ` set (acc @ [(nk k, v)]) = {}"
    using Cons.prems p by (auto dest: inj)
  with Cons.IH [of "acc @ [(nk k, v)]"] Cons.prems(1)
  have "fold rewrite_item d (acc @ [(nk k, v)]) =
          (acc @ [(nk k, v)]) @ map (\<lambda>(k, v). (nk k, v)) d"
    by simp
  then show ?case by (simp add: step p)
qed

text \<open>
  Claim C1. For every dictionary \<open>d\<close> (an association list with distinct keys),
  \<open>rewrite_logs d\<close> holds, in the order of \<open>d\<close>, one entry for each entry \<open>(k, v)\<close> of \<open>d\<close>:
  its key is \<open>eval/\<close> followed by the remainder of \<open>k\<close> after the prefix when \<open>k\<close> starts with
  \<open>eval_\<close>, and \<open>train/\<close> followed by \<open>k\<close> otherwise; its value is the unchanged \<open>v\<close>. The new
  keys are again distinct, so looking a new key up gives the value of the key it comes from.
\<close>

theorem rewrite_logs_maps_keys:
  fixes d :: "'v dict"
  assumes "distinct (map fst d)"
  shows "rewrite_logs d =
           map (\<lambda>(k, v). (if take 5 k = ''eval_'' then ''eval/'' @ drop 5 k
                              else ''train/'' @ k, v)) d
         \<and> distinct (map fst (rewrite_logs d))
         \<and> (\<forall>(k, v) \<in> set d.
              map_of (rewrite_logs d)
                (if take 5 k = ''eval_'' then ''eval/'' @ drop 5 k else ''train/'' @ k) = Some v)"
proof -
  let ?nk = "\<lambda>k. if take 5 k = ''eval_'' then ''eval/'' @ drop 5 k else ''train/'' @ k"
  have eq: "rewrite_logs d = map (\<lambda>(k, v). (?nk k, v)) d"
    unfolding rewrite_logs_def using fold_rewrite_item [OF assms, of "[]"] by simp
  have keys: "map fst (map (\<lambda>(k, v). (?nk k, v)) d) = map ?nk (map fst d)"
    by (induction d) auto
  have inj: "inj_on ?nk (set (map fst d))"
    by (rule inj_onI) (rule rewritten_key_inject)
  have dist: "distinct (map fst (rewrite_logs d))"
    unfolding eq keys by (rule iffD2 [OF distinct_map, OF conjI [OF assms inj]])
  have "\<forall>(k, v) \<in> set d. map_of (rewrite_logs d) (?nk k) = Some v"
  proof (clarify)
    fix k v assume "(k, v) \<in> set d"
    then have "(?nk k, v) \<in> set (rewrite_logs d)"
      unfolding eq by force
    with dist show "map_of (rewrite_logs d) (?nk k) = Some v"
      by simp
  qed
  with eq dist show ?thesis by simp
qed

theorem rewrite_logs_maps_keys_witness:
  "distinct (map fst [(''eval_loss'', 1::int), (''loss'', 2), (''eval'', 3)])
   \<and> rewrite_logs [(''eval_loss'', 1::int), (''loss'', 2), (''eval'', 3)] =
       [(''eval/loss'', 1), (''train/loss'', 2), (''train/eval'', 3)]
   \<and> map_of (rewrite_logs [(''eval_loss'', 1::int), (''loss'', 2), (''eval'', 3)]) ''eval/loss''
       = Some 1"
proof -
  have h: "distinct (map fst [(''eval_loss'', 1::int), (''loss'', 2), (''eval'', 3)])"
    by simp
  show ?thesis
    using h rewrite_logs_maps_keys [OF h] by simp
qed

section \<open>Properties of \<^verbatim>\<open>get_reporting_integration_callbacks\<close>\<close>

lemma registry_names:
  "join '', '' (map fst INTEGRATION_TO_CALLBACK) = ''azure_ml, comet_ml, mlflow, tensorboard, wandb''"
  by (simp add: INTEGRATION_TO_CALLBACK_def)

lemma registry_some:
  assumes "n \<in> {''azure_ml'', ''comet_ml'', ''mlflow'', ''tensorboard'', ''wandb''}"
  shows "map_of INTEGRATION_TO_CALLBACK n =
     Some (if n = ''azure_ml'' then AzureMLCallback
      else if n = ''comet_ml'' then CometCallback
      else if n = ''mlflow'' then MLflowCallback
      else if n = ''tensorboard'' then TensorBoardCallback
      else WandbCallback)"
proof -
  from assms have "n = ''azure_ml'' \<or> n = ''comet_ml'' \<or> n = ''mlflow'' \<or> n = ''tensorboard''
      \<or> n = ''wandb''"
    by simp
  then show ?thesis
    by (elim disjE) (simp_all add: INTEGRATION_TO_CALLBACK_def)
qed

lemma registry_none:
  "n \<notin> {''azure_ml'', ''comet_ml'', ''mlflow'', ''tensorboard'', ''wandb''} \<Longrightarrow>
   map_of INTEGRATION_TO_CALLBACK n = None"
  by (simp add: INTEGRATION_TO_CALLBACK_def)

lemma check_integrations_prefix:
  "\<forall>n \<in> set pre. map_of INTEGRATION_TO_CALLBACK n \<noteq> None \<Longrightarrow>
   check_integrations (pre @ rest) = check_integrations rest"
  by (induction pre) auto

lemma lookup_callbacks_all:
  "\<forall>n \<in> set report_to. map_of INTEGRATION_TO_CALLBACK n = Some (f n) \<Longrightarrow>
   lookup_callbacks report_to = Inr (map f report_to)"
  by (induction report_to) auto

text \<open>
  Claim C2. When every element of \<open>report_to\<close> is one of the five integration names,
  \<open>get_reporting_integration_callbacks\<close> returns the callback classes that the names stand
  for (the classes, not instances), one per element and in the order of the input.
\<close>

theorem get_reporting_integration_callbacks_valid:
  assumes "set report_to \<subseteq> {''azure_ml'', ''comet_ml'', ''mlflow'', ''tensorboard'', ''wandb''}"
  shows "get_reporting_integration_callbacks report_to =
           Inr (map (\<lambda>n. if n = ''azure_ml'' then AzureMLCallback
                          else if n = ''comet_ml'' then CometCallback
                          else if n = ''mlflow'' then MLflowCallback
                          else if n = ''tensorboard'' then TensorBoardCallback
                          else WandbCallback) report_to)"
proof -
  let ?f = "\<lambda>n. if n = ''azure_ml'' then AzureMLCallback
                          else if n = ''comet_ml'' then CometCallback
                          else if n = ''mlflow'' then MLflowCallback
                          else if n = ''tensorboard'' then TensorBoardCallback
                          else WandbCallback"
  have some: "\<forall>n \<in> set report_to. map_of INTEGRATION_TO_CALLBACK n = Some (?f n)"
    by (rule ballI) (rule registry_some, erule subsetD [OF assms])
  then have "\<forall>n \<in> set report_to. map_of INTEGRATION_TO_CALLBACK n \<noteq> None"
    by simp
  from check_integrations_prefix [OF this, of "[]"]
  have chk: "check_integrations report_to = Inr ()"
    by simp
  show ?thesis
    by (simp only: get_reporting_integration_callbacks_def chk lookup_callbacks_all [OF some]
        sum.case)
qed

theorem get_reporting_integration_callbacks_valid_witness:
  "set [''wandb'', ''mlflow''] \<subseteq> {''azure_ml'', ''comet_ml'', ''mlflow'', ''tensorboard'', ''wandb''}
   \<and> get_reporting_integration_callbacks [''wandb'', ''mlflow''] =
       Inr [WandbCallback, MLflowCallback]"
proof -
  have h: "set [''wandb'', ''mlflow''] \<subseteq>
             {''azure_ml'', ''comet_ml'', ''mlflow'', ''tensorboard'', ''wandb''}"
    by simp
  show ?thesis
    using h get_reporting_integration_callbacks_valid [OF h] by simp
qed

text \<open>
  Claim C3. When \<open>report_to\<close> has an element outside the five integration names,
  \<open>get_reporting_integration_callbacks\<close> raises \<^verbatim>\<open>ValueError\<close> and returns no list. The
  message starts with the first such element \<open>bad\<close> (every element before it is valid) and
  lists the five valid names.
\<close>

theorem get_reporting_integration_callbacks_invalid:
  assumes "\<not> set report_to \<subseteq> {''azure_ml'', ''comet_ml'', ''mlflow'', ''tensorboard'', ''wandb''}"
  shows "\<exists>pre bad post. report_to = pre @ bad # post
         \<and> set pre \<subseteq> {''azure_ml'', ''comet_ml'', ''mlflow'', ''tensorboard'', ''wandb''}
         \<and> bad \<notin> {''azure_ml'', ''comet_ml'', ''mlflow'', ''tensorboard'', ''wandb''}
         \<and> get_reporting_integration_callbacks report_to =
             Inl (ValueError (bad @ '' is not supported, only azure_ml, comet_ml, mlflow, tensorboard, wandb are supported.''))"
proof -
  define V where "V = {''azure_ml'', ''comet_ml'', ''mlflow'', ''tensorboard'', ''wandb''}"
  have "\<exists>n \<in> set report_to. n \<notin> V"
    using assms unfolding V_def [symmetric] by (rule contrapos_np) (simp add: subset_iff)
  from split_list_first_prop [OF this] obtain pre bad post where
    split: "report_to = pre @ bad # post" and bad: "bad \<notin> V"
    and pre: "\<forall>n \<in> set pre. \<not> n \<notin> V"
    by (elim exE conjE)
  have pre_some: "\<forall>n \<in> set pre. map_of INTEGRATION_TO_CALLBACK n \<noteq> None"
  proof
    fix n assume "n \<in> set pre"
    with pre have "n \<in> V" by simp
    then show "map_of INTEGRATION_TO_CALLBACK n \<noteq> None"
      unfolding V_def by (simp only: registry_some) simp
  qed
  have bad_none: "map_of INTEGRATION_TO_CALLBACK bad = None"
    using bad unfolding V_def by (rule registry_none)
  have chk: "check_integrations report_to =
      Inl (ValueError (bad @ '' is not supported, only azure_ml, comet_ml, mlflow, tensorboard, wandb are supported.''))"
    unfolding split check_integrations_prefix [OF pre_some]
    by (simp only: check_integrations.simps bad_none if_True registry_names refl) simp
  have get: "get_reporting_integration_callbacks report_to =
      Inl (ValueError (bad @ '' is not supported, only azure_ml, comet_ml, mlflow, tensorboard, wandb are supported.''))"
    by (simp only: get_reporting_integration_callbacks_def chk sum.case)
  have pre': "set pre \<subseteq> V"
    using pre by (simp add: subset_iff)
  show ?thesis
    by (intro exI conjI)
       (rule split, rule pre' [unfolded V_def], rule bad [unfolded V_def], rule get)
qed

theorem get_reporting_integration_callbacks_invalid_witness:
  "\<not> set [''wandb'', ''bogus''] \<subseteq> {''azure_ml'', ''comet_ml'', ''mlflow'', ''tensorboard'', ''wandb''}
   \<and> (\<exists>pre bad post. [''wandb'', ''bogus''] = pre @ bad # post
         \<and> set pre \<subseteq> {''azure_ml'', ''comet_ml'', ''mlflow'', ''tensorboard'', ''wandb''}
         \<and> bad \<notin> {''azure_ml'', ''comet_ml'', ''mlflow'', ''tensorboard'', ''wandb''}
         \<and> get_reporting_integration_callbacks [''wandb'', ''bogus''] =
             Inl (ValueError (bad @ '' is not supported, only azure_ml, comet_ml, mlflow, tensorboard, wandb are supported.'')))"
proof -
  have h: "\<not> set [''wandb'', ''bogus''] \<subseteq>
             {''azure_ml'', ''comet_ml'', ''mlflow'', ''tensorboard'', ''wandb''}"
    by simp
  show ?thesis
    by (rule conjI [OF h get_reporting_integration_callbacks_invalid [OF h]])
qed

section \<open>Properties of the ZeRO stage 3 flag\<close>

lemma flag_set_flag: "triple (\<lambda>s. zero3_flag s \<noteq> None) (set_flag b) (\<lambda>_. True)"
  by (simp add: triple_def set_flag_def)

lemma flag_parse:
  "triple (\<lambda>s. zero3_flag s \<noteq> None) (deepspeed_parse_config e v) (\<lambda>_. True)"
  unfolding deepspeed_parse_config_def triple_def
  by (auto simp: raise_def deepcopy_def load_document_def bindP_def liftE_def Let_def
      split: val.splits option.splits obj.splits sum.splits prod.splits)

lemma flag_config_is_stage3:
  "triple (\<lambda>s. zero3_flag s \<noteq> None) (config_is_stage3 config) (\<lambda>_. True)"
  unfolding config_is_stage3_def
  by (intro triple_bind [where Q = "\<lambda>_. True"] triple_if triple_return triple_py_in
      triple_py_getitem_any TrueI)

lemma flag_discover: "triple (\<lambda>s. zero3_flag s \<noteq> None) (discover_zero3 e) (\<lambda>_. True)"
  unfolding discover_zero3_def
  by (intro triple_bind [where Q = "\<lambda>_. True"] triple_if triple_return triple_raise
      triple_liftE flag_parse flag_config_is_stage3 flag_set_flag TrueI)

lemma is_enabled_unfold:
  "is_deepspeed_zero3_enabled e s =
     seqP (if zero3_flag s = None
           then seqP (set_flag False)
                  (if ''--deepspeed'' \<in> set (argv e) then discover_zero3 e else return ())
           else return ())
       get_flag s"
  by (simp add: is_deepspeed_zero3_enabled_def bindP_def get_flag_def)

lemma is_enabled_cached:
  "zero3_flag s = Some b \<Longrightarrow> is_deepspeed_zero3_enabled e s = (Inr (Some b), s)"
  by (simp add: is_enabled_unfold bindP_def seqP_def get_flag_def return_def)

lemma is_enabled_first:
  assumes "zero3_flag s = None"
  shows "is_deepspeed_zero3_enabled e s =
     seqP (if ''--deepspeed'' \<in> set (argv e) then discover_zero3 e else return ()) get_flag
       (s\<lparr>zero3_flag := Some False\<rparr>)"
  using assms by (simp add: is_enabled_unfold bindP_def seqP_def set_flag_def)

lemma is_enabled_flag_set:
  "zero3_flag (snd (is_deepspeed_zero3_enabled e s)) \<noteq> None"
proof (cases "zero3_flag s")
  case (Some b)
  then show ?thesis
    by (simp add: is_enabled_cached)
next
  case None
  have "triple (\<lambda>s. zero3_flag s \<noteq> None)
          (seqP (if ''--deepspeed'' \<in> set (argv e) then discover_zero3 e else return ()) get_flag)
          (\<lambda>_. True)"
    by (intro triple_seq [where Q = "\<lambda>_. True"] triple_if triple_return triple_get_flag
        flag_discover TrueI)
  from tripleD [OF this, of "s\<lparr>zero3_flag := Some False\<rparr>"]
  show ?thesis
    by (simp add: is_enabled_first [OF None])
qed

lemma seq_get_flag_result:
  "seqP m get_flag s = (Inr r, s') \<Longrightarrow> r = zero3_flag s'"
  by (auto simp: seqP_def bindP_def get_flag_def split: prod.splits sum.splits)

lemma is_enabled_returns_flag:
  "is_deepspeed_zero3_enabled e s = (Inr r, s') \<Longrightarrow> r = zero3_flag s'"
  unfolding is_enabled_unfold by (rule seq_get_flag_result)

lemma enable_then_enabled:
  "is_deepspeed_zero3_enabled e (snd (deepspeed_zero3_enable b s)) =
     (Inr (Some b), snd (deepspeed_zero3_enable b s))"
  by (rule is_enabled_cached) (simp add: deepspeed_zero3_enable_def set_flag_def)

text \<open>
  Claim C9. The flag is computed on the first call of \<open>is_deepspeed_zero3_enabled\<close> and
  at most once: whatever the outcome of a call, the variable holds a boolean afterwards.
  Once a call has returned, it has returned that boolean \<open>b\<close>, and a further call returns
  \<open>b\<close> again and leaves the state as it is, in every environment (so nothing is read from
  the command line or the file system any more, and so does every call after it). After
  \<open>deepspeed_zero3_enable enable\<close>, from any state, a call returns \<open>enable\<close> and leaves the
  state as it is.
\<close>

theorem zero3_flag_computed_once:
  "(\<exists>b. zero3_flag (snd (is_deepspeed_zero3_enabled e s)) = Some b)
   \<and> (\<forall>r s'. is_deepspeed_zero3_enabled e s = (Inr r, s') \<longrightarrow>
        (\<exists>b. r = Some b \<and> (\<forall>e'. is_deepspeed_zero3_enabled e' s' = (Inr (Some b), s'))))
   \<and> (\<forall>err s'. is_deepspeed_zero3_enabled e s = (Inl err, s') \<longrightarrow>
        (\<exists>b. \<forall>e'. is_deepspeed_zero3_enabled e' s' = (Inr (Some b), s')))
   \<and> (\<forall>enable e'. is_deepspeed_zero3_enabled e' (snd (deepspeed_zero3_enable enable s)) =
        (Inr (Some enable), snd (deepspeed_zero3_enable enable s)))"
proof (intro conjI allI impI)
  show "\<exists>b. zero3_flag (snd (is_deepspeed_zero3_enabled e s)) = Some b"
    using is_enabled_flag_set [of e s] by auto
next
  fix r s' assume run: "is_deepspeed_zero3_enabled e s = (Inr r, s')"
  from is_enabled_flag_set [of e s] run obtain b where b: "zero3_flag s' = Some b"
    by auto
  with is_enabled_returns_flag [OF run] have "r = Some b" by simp
  with b show "\<exists>b. r = Some b \<and> (\<forall>e'. is_deepspeed_zero3_enabled e' s' = (Inr (Some b), s'))"
    by (simp add: is_enabled_cached)
next
  fix err s' assume run: "is_deepspeed_zero3_enabled e s = (Inl err, s')"
  from is_enabled_flag_set [of e s] run obtain b where b: "zero3_flag s' = Some b"
    by auto
  then show "\<exists>b. \<forall>e'. is_deepspeed_zero3_enabled e' s' = (Inr (Some b), s')"
    by (auto simp: is_enabled_cached)
next
  fix enable e'
  show "is_deepspeed_zero3_enabled e' (snd (deepspeed_zero3_enable enable s)) =
        (Inr (Some enable), snd (deepspeed_zero3_enable enable s))"
    by (rule enable_then_enabled)
qed

theorem zero3_flag_computed_once_witness:
  "is_deepspeed_zero3_enabled example_env initial_state =
     (Inr (Some True),
      \<lparr>heap = [ODict [(''stage'', VInt 3)], ODict [(''zero_optimization'', VRef 0)]],
       zero3_flag = Some True, events = []\<rparr>)
   \<and> is_deepspeed_zero3_enabled (example_env\<lparr>argv := [''run.py'']\<rparr>)
       \<lparr>heap = [ODict [(''stage'', VInt 3)], ODict [(''zero_optimization'', VRef 0)]],
        zero3_flag = Some True, events = []\<rparr> =
     (Inr (Some True),
      \<lparr>heap = [ODict [(''stage'', VInt 3)], ODict [(''zero_optimization'', VRef 0)]],
       zero3_flag = Some True, events = []\<rparr>)
   \<and> is_deepspeed_zero3_enabled example_env (snd (deepspeed_zero3_enable False initial_state)) =
     (Inr (Some False), snd (deepspeed_zero3_enable False initial_state))"
proof -
  have run: "is_deepspeed_zero3_enabled example_env initial_state =
     (Inr (Some True),
      \<lparr>heap = [ODict [(''stage'', VInt 3)], ODict [(''zero_optimization'', VRef 0)]],
       zero3_flag = Some True, events = []\<rparr>)"
    by (simp add: is_deepspeed_zero3_enabled_def example_env_def initial_state_def prog_eval
        discover_zero3_def argv_at_def deepspeed_parse_config_def config_is_stage3_def)
  show ?thesis
    using zero3_flag_computed_once [of example_env initial_state] run by auto
qed

section \<open>Properties of \<^verbatim>\<open>deepspeed_init\<close>\<close>

text \<open>Each block of \<^verbatim>\<open>deepspeed_init\<close> keeps an invariant that the primitive steps keep.\<close>

lemma steps_keep_immutable: "steps_keep I F \<Longrightarrow> \<not> is_ref v \<Longrightarrow> F v"
  by (simp add: steps_keep_def)

lemma steps_keep_emit: "steps_keep I F \<Longrightarrow> triple I (emit ev) (\<lambda>_. True)"
  by (simp add: steps_keep_def)

lemma steps_keep_set_flag: "steps_keep I F \<Longrightarrow> triple I (set_flag b) (\<lambda>_. True)"
  by (simp add: steps_keep_def)

lemma steps_keep_setitem:
  "steps_keep I F \<Longrightarrow> F v \<Longrightarrow> F x \<Longrightarrow> k \<noteq> ''train_micro_batch_size_per_gpu'' \<Longrightarrow>
   k \<noteq> ''gradient_accumulation_steps'' \<Longrightarrow> triple I (py_setitem v k x) (\<lambda>_. True)"
  by (simp add: steps_keep_def)

lemma steps_keep_alloc:
  "steps_keep I F \<Longrightarrow> \<forall>v \<in> obj_vals ob. F v \<Longrightarrow> triple I (alloc ob) F"
  by (simp add: steps_keep_def)

lemma steps_keep_getitem: "steps_keep I F \<Longrightarrow> F v \<Longrightarrow> triple I (py_getitem v k) F"
  by (simp add: steps_keep_def)

lemma steps_keep_get: "steps_keep I F \<Longrightarrow> F v \<Longrightarrow> triple I (py_get v k) F"
  by (simp add: steps_keep_def)

lemma keeps_override_params:
  assumes sk: "steps_keep I F" and config: "F config"
    and ps: "\<forall>(k, v) \<in> set ps. F v \<and> k \<noteq> ''train_micro_batch_size_per_gpu''
               \<and> k \<noteq> ''gradient_accumulation_steps''"
  shows "triple I (override_params config section prefix ps) (\<lambda>_. True)"
  using ps
proof (induction ps)
  case Nil
  show ?case by (simp add: triple_return)
next
  case (Cons p ps)
  obtain k v where p: "p = (k, v)" by (cases p)
  from Cons.prems p have v: "F v" and k: "k \<noteq> ''train_micro_batch_size_per_gpu''"
    "k \<noteq> ''gradient_accumulation_steps''"
    by auto
  from Cons have rest: "triple I (override_params config section prefix ps) (\<lambda>_. True)"
    by simp
  show ?case
    unfolding p override_params.simps
    by (intro triple_bind [OF steps_keep_getitem [OF sk]] triple_bind [OF triple_py_in]
        triple_seq [where Q = "\<lambda>_. True", OF _ rest] triple_if
        triple_seq [OF steps_keep_emit [OF sk]]
        steps_keep_setitem [OF sk] triple_return config v k TrueI)
       assumption+
qed

lemma keeps_set_gradient_clipping:
  assumes sk: "steps_keep I F" and config: "F config"
  shows "triple I (set_gradient_clipping a config) (\<lambda>_. True)"
proof -
  have clip: "triple I (py_setitem config ''gradient_clipping'' (VFloat (max_grad_norm a)))
      (\<lambda>_. True)"
    using steps_keep_immutable [OF sk, of "VFloat (max_grad_norm a)"]
    by (intro steps_keep_setitem [OF sk config]) (simp_all add: is_ref_def)
  show ?thesis
    unfolding set_gradient_clipping_def
    by (intro triple_bind [OF triple_py_in] triple_if steps_keep_emit [OF sk] clip)
qed

lemma keeps_zero_offload_requested:
  "triple I (zero_offload_requested config) (\<lambda>_. True)"
  unfolding zero_offload_requested_def
  by (intro triple_bind [where Q = "\<lambda>_. True"] triple_if triple_return triple_py_in
      triple_py_getitem_any TrueI)

lemma keeps_setup_optimizer:
  assumes sk: "steps_keep I F" and config: "F config"
  shows "triple I (setup_optimizer a config) (\<lambda>_. True)"
proof -
  have params: "\<forall>(k, v) \<in> set (optimizer_params a betas). F v
        \<and> k \<noteq> ''train_micro_batch_size_per_gpu'' \<and> k \<noteq> ''gradient_accumulation_steps''"
    if "F betas" for betas
    using that steps_keep_immutable [OF sk]
    by (simp add: optimizer_params_def is_ref_def)
  have betas: "\<forall>v \<in> obj_vals (OList [VFloat (adam_beta1 a), VFloat (adam_beta2 a)]). F v"
    using steps_keep_immutable [OF sk] by (simp add: obj_vals_def is_ref_def)
  have untested: "triple I (py_setitem config ''zero_allow_untested_optimizer'' (VBool True))
      (\<lambda>_. True)"
    using steps_keep_immutable [OF sk, of "VBool True"]
    by (intro steps_keep_setitem [OF sk config]) (simp_all add: is_ref_def)
  show ?thesis
    unfolding setup_optimizer_def
    by (intro triple_bind [OF triple_py_in] triple_if
        triple_seq [OF steps_keep_emit [OF sk]]
        triple_bind [OF steps_keep_alloc [OF sk betas]]
        triple_seq [OF keeps_override_params [OF sk config params]]
        triple_bind [OF keeps_zero_offload_requested]
        triple_seq [OF untested]
        triple_return triple_raise TrueI)
qed

lemma keeps_setup_scheduler:
  assumes sk: "steps_keep I F" and config: "F config"
  shows "triple I (setup_scheduler a n config) (\<lambda>_. True)"
proof -
  have params: "\<forall>(k, v) \<in> set (scheduler_params a). F v
        \<and> k \<noteq> ''train_micro_batch_size_per_gpu'' \<and> k \<noteq> ''gradient_accumulation_steps''"
    using steps_keep_immutable [OF sk]
    by (simp add: scheduler_params_def is_ref_def)
  have total: "triple I (py_setitem y ''total_num_steps'' (VInt n)) (\<lambda>_. True)" if "F y" for y
    using that steps_keep_immutable [OF sk, of "VInt n"]
    by (intro steps_keep_setitem [OF sk]) (simp_all add: is_ref_def)
  show ?thesis
    unfolding setup_scheduler_def
    by (intro triple_bind [OF triple_py_in] triple_if
        triple_seq [OF steps_keep_emit [OF sk]]
        triple_bind [OF steps_keep_getitem [OF sk]]
        triple_seq [where Q = "\<lambda>_. True", OF _ triple_seq
          [OF keeps_override_params [OF sk config params]]]
        total triple_return triple_raise config TrueI)
       assumption+
qed

lemma keeps_set_unless_present:
  assumes sk: "steps_keep I F" and config: "F config"
    and ob: "\<forall>v \<in> obj_vals ob. F v"
    and k: "k \<noteq> ''train_micro_batch_size_per_gpu''" "k \<noteq> ''gradient_accumulation_steps''"
  shows "triple I (set_unless_present config k ob kept) (\<lambda>_. True)"
  unfolding set_unless_present_def
  by (intro triple_bind [OF triple_py_in] triple_if steps_keep_emit [OF sk]
      triple_bind [OF steps_keep_alloc [OF sk ob]] steps_keep_setitem [OF sk config] k)

lemma keeps_setup_fp16:
  assumes sk: "steps_keep I F" and config: "F config"
  shows "triple I (setup_fp16 t config) (\<lambda>_. True)"
  unfolding setup_fp16_def
  by (intro triple_case_option triple_if triple_return keeps_set_unless_present [OF sk config]
      TrueI)
     (simp_all add: obj_vals_def steps_keep_immutable [OF sk] is_ref_def)

lemma keeps_set_if_zero:
  assumes sk: "steps_keep I F" and zero: "F zero" and v: "F v"
    and k: "k \<noteq> ''train_micro_batch_size_per_gpu''" "k \<noteq> ''gradient_accumulation_steps''"
  shows "triple I (set_if_zero zero k v) (\<lambda>_. True)"
  unfolding set_if_zero_def
  by (intro triple_bind [OF triple_py_get_any] triple_if triple_return
      steps_keep_setitem [OF sk zero v] k TrueI)

lemma keeps_setup_zero:
  assumes sk: "steps_keep I F" and config: "F config"
  shows "triple I (setup_zero t config) (\<lambda>_. True)"
proof -
  have bucket: "triple I (set_if_zero zero k v) (\<lambda>_. True)"
    if "F zero" "\<not> is_ref v" "k \<noteq> ''train_micro_batch_size_per_gpu''"
      "k \<noteq> ''gradient_accumulation_steps''" for zero k v
    using that steps_keep_immutable [OF sk, of v]
    by (intro keeps_set_if_zero [OF sk]) simp_all
  show ?thesis
    unfolding setup_zero_def Let_def deepspeed_zero3_enable_def
    by (intro triple_bind [OF triple_py_in] triple_if triple_return
        triple_bind [OF steps_keep_getitem [OF sk config]]
        triple_bind [OF triple_py_get_any]
        triple_seq [OF steps_keep_set_flag [OF sk]]
        triple_seq [OF bucket] bucket TrueI)
       (simp_all add: is_ref_def)
qed

lemma keeps_initialize:
  assumes sk: "steps_keep I F"
  shows "triple I (initialize config opt sch) (\<lambda>_. True)"
  unfolding initialize_def
  by (intro triple_seq [OF steps_keep_emit [OF sk]] triple_return TrueI)

lemma keeps_complete_config:
  assumes sk: "steps_keep I F" and config: "F config"
  shows "triple I (complete_config t n config) (\<lambda>_. True)"
  unfolding complete_config_def
  by (intro triple_seq [OF keeps_set_gradient_clipping [OF sk config]]
      triple_bind [OF keeps_setup_optimizer [OF sk config]]
      triple_bind [OF keeps_setup_scheduler [OF sk config]]
      triple_seq [OF keeps_setup_fp16 [OF sk config]]
      triple_seq [OF keeps_setup_zero [OF sk config]]
      keeps_initialize [OF sk])

lemma keeps_resume:
  assumes sk: "steps_keep I F"
  shows "triple I (resume e r) (\<lambda>_. True)"
  unfolding resume_def Let_def
  by (intro triple_case_option triple_if triple_return triple_raise
      triple_seq [OF steps_keep_emit [OF sk]] steps_keep_emit [OF sk] TrueI)

lemma keeps_check_forbidden_keys:
  "triple I (check_forbidden_keys config) (\<lambda>_. True)"
  unfolding check_forbidden_keys_def
  by (intro triple_bind [OF triple_py_keys] triple_if triple_return triple_raise TrueI)

text \<open>What \<open>deepspeed_parse_config\<close> returns for a mapping.\<close>

lemma deref_dictD:
  assumes "deref s v = Some ob"
  obtains a where "v = VRef a" and "a < length (heap s)" and "heap s ! a = ob"
  using assms by (cases v) (auto simp: deref_def heap_get_def split: if_splits)

lemma parse_config_dict:
  assumes "deepspeed_version_ok e" and "deref s v = Some (ODict d)"
  shows "deepspeed_parse_config e v s =
           (Inr (shift (length (heap s)) v),
            s\<lparr>heap := heap s @ map (shift_obj (length (heap s))) (heap s)\<rparr>)"
  using assms by (simp add: deepspeed_parse_config_def deepcopy_def Let_def)

lemma store_items_keys: "map fst (fst (store_items d h)) = map fst d"
proof (induction d arbitrary: h)
  case Nil
  show ?case by simp
next
  case (Cons p d)
  obtain k v where p: "p = (k, v)" by (cases p)
  obtain v' h1 where 1: "store_tree v h = (v', h1)" by (cases "store_tree v h")
  obtain rest' h2 where 2: "store_items d h1 = (rest', h2)" by (cases "store_items d h1")
  from Cons.IH [of h1] 2 have "map fst rest' = map fst d" by simp
  with 1 2 show ?case by (simp add: p)
qed

lemma parse_config_path:
  assumes "deepspeed_version_ok e" and "read_json e p = Inr (PDict doc)"
  shows "deepspeed_parse_config e (VStr p) s =
           (Inr (VRef (length (snd (store_items doc (heap s))))),
            s\<lparr>heap := snd (store_items doc (heap s))
                        @ [ODict (fst (store_items doc (heap s)))]\<rparr>)"
  using assms
  by (simp add: deepspeed_parse_config_def deref_def bindP_def liftE_def load_document_def
      split: prod.splits)

lemma parse_config_mapping:
  assumes ok: "deepspeed_version_ok e"
    and src: "(\<exists>d. deref s v = Some (ODict d) \<and> map fst d = keys)
         \<or> (\<exists>p doc. v = VStr p \<and> read_json e p = Inr (PDict doc) \<and> map fst doc = keys)"
  obtains c items s1 where "deepspeed_parse_config e v s = (Inr (VRef c), s1)"
    and "heap_get s1 c = Some (ODict items)" and "map fst items = keys"
    and "events s1 = events s" and "zero3_flag s1 = zero3_flag s"
  using src
proof (elim disjE exE conjE)
  fix d assume d: "deref s v = Some (ODict d)" and keys: "map fst d = keys"
  let ?n = "length (heap s)"
  let ?s1 = "s\<lparr>heap := heap s @ map (shift_obj ?n) (heap s)\<rparr>"
  from d obtain a where v: "v = VRef a" and a: "a < ?n" and at: "heap s ! a = ODict d"
    by (rule deref_dictD)
  have 1: "heap_get ?s1 (a + ?n) = Some (ODict (map (\<lambda>(k, x). (k, shift ?n x)) d))"
    using a at by (simp add: heap_get_def nth_append shift_obj_def)
  have 2: "map fst (map (\<lambda>(k, x). (k, shift ?n x)) d) = keys"
    using keys by (simp add: comp_def case_prod_unfold)
  have 3: "deepspeed_parse_config e v s = (Inr (VRef (a + ?n)), ?s1)"
    using parse_config_dict [OF ok d] v by (simp add: shift_def)
  show thesis
    by (rule that [OF 3 1 2]) simp_all
next
  fix p doc
  assume v: "v = VStr p" and doc: "read_json e p = Inr (PDict doc)"
    and keys: "map fst doc = keys"
  let ?h = "snd (store_items doc (heap s))"
  let ?items = "fst (store_items doc (heap s))"
  let ?s1 = "s\<lparr>heap := ?h @ [ODict ?items]\<rparr>"
  have 1: "heap_get ?s1 (length ?h) = Some (ODict ?items)"
    by (simp add: heap_get_def)
  have 2: "map fst ?items = keys"
    using keys by (simp add: store_items_keys)
  have 3: "deepspeed_parse_config e v s = (Inr (VRef (length ?h)), ?s1)"
    unfolding v by (rule parse_config_path [OF ok doc])
  show thesis
    by (rule that [OF 3 1 2]) simp_all
qed

lemma check_forbidden_keys_dict:
  assumes "heap_get s c = Some (ODict items)"
  shows "check_forbidden_keys (VRef c) s =
     (if ''train_batch_size'' \<in> set (map fst items)
         \<or> ''train_micro_batch_size_per_gpu'' \<in> set (map fst items)
      then (Inl (ValueError bs_keys_message), s)
      else if ''gradient_accumulation_steps'' \<in> set (map fst items)
      then (Inl (ValueError accumulation_message), s)
      else (Inr (), s))"
  using assms
  by (simp add: check_forbidden_keys_def bindP_def py_keys_def deref_def bs_keys_def raise_def
      return_def)

text \<open>
  Claim C5. Let the configuration that \<^verbatim>\<open>args.deepspeed\<close> denotes (the dict it refers to, or
  the JSON object in the file it names) have the keys \<open>keys\<close>, one of them
  \<open>train_batch_size\<close>, \<open>train_micro_batch_size_per_gpu\<close> or \<open>gradient_accumulation_steps\<close>.
  Then \<open>deepspeed_init\<close> raises, and it does so before anything is initialised: no
  optimizer or scheduler is created, the engine is not initialised, no checkpoint is
  loaded (no event is recorded) and the ZeRO flag is as before. When DeepSpeed can be
  imported and its version is accepted, the error is the \<^verbatim>\<open>ValueError\<close> naming the
  batch-size keys, or the one naming \<open>gradient_accumulation_steps\<close> when that is the only
  forbidden key.
\<close>

theorem deepspeed_init_rejects_batch_keys:
  assumes src: "(\<exists>d. deref s (deepspeed (args t)) = Some (ODict d) \<and> map fst d = keys)
         \<or> (\<exists>p doc. deepspeed (args t) = VStr p \<and> read_json e p = Inr (PDict doc)
               \<and> map fst doc = keys)"
    and forbidden: "''train_batch_size'' \<in> set keys
         \<or> ''train_micro_batch_size_per_gpu'' \<in> set keys
         \<or> ''gradient_accumulation_steps'' \<in> set keys"
  shows "(\<exists>err. fst (deepspeed_init e t n r s) = Inl err)
     \<and> (deepspeed_importable e \<and> deepspeed_version_ok e \<longrightarrow>
          fst (deepspeed_init e t n r s) =
            Inl (ValueError
              (if ''train_batch_size'' \<in> set keys
                  \<or> ''train_micro_batch_size_per_gpu'' \<in> set keys
               then bs_keys_message else accumulation_message)))
     \<and> events (snd (deepspeed_init e t n r s)) = events s
     \<and> zero3_flag (snd (deepspeed_init e t n r s)) = zero3_flag s"
proof (cases "deepspeed_importable e \<and> deepspeed_version_ok e")
  case False
  then show ?thesis
    by (auto simp: deepspeed_init_def deepspeed_parse_config_def raise_def bindP_def)
next
  case True
  let ?err = "ValueError
              (if ''train_batch_size'' \<in> set keys
                  \<or> ''train_micro_batch_size_per_gpu'' \<in> set keys
               then bs_keys_message else accumulation_message)"
  from True have ok: "deepspeed_version_ok e" by simp
  obtain c items s1 where
    parse: "deepspeed_parse_config e (deepspeed (args t)) s = (Inr (VRef c), s1)"
    and at: "heap_get s1 c = Some (ODict items)" and keys: "map fst items = keys"
    and same: "events s1 = events s" "zero3_flag s1 = zero3_flag s"
    by (rule parse_config_mapping [OF ok src])
  have "check_forbidden_keys (VRef c) s1 = (Inl ?err, s1)"
    using forbidden by (auto simp: check_forbidden_keys_dict [OF at] keys)
  then have merge: "merge_batch_args (args t) (VRef c) s1 = (Inl ?err, s1)"
    by (simp add: merge_batch_args_def
        seqP_Inl_eq [of "check_forbidden_keys (VRef c)" s1])
  have "deepspeed_init e t n r s = (Inl ?err, s1)"
    using True
    by (simp add: deepspeed_init_def
        bindP_Inr_eq [of "deepspeed_parse_config e (deepspeed (args t))" s, OF parse]
        seqP_Inl_eq [of "merge_batch_args (args t) (VRef c)" s1, OF merge])
  with same show ?thesis by simp
qed

theorem deepspeed_init_rejects_batch_keys_witness:
  "deref batch_size_config_state (deepspeed (args example_trainer)) =
     Some (ODict [(''train_batch_size'', VInt 16)])
   \<and> deepspeed_importable example_env \<and> deepspeed_version_ok example_env
   \<and> fst (deepspeed_init example_env example_trainer 100 None batch_size_config_state) =
       Inl (ValueError bs_keys_message)
   \<and> events (snd (deepspeed_init example_env example_trainer 100 None batch_size_config_state)) = []"
proof -
  have dict: "deref batch_size_config_state (deepspeed (args example_trainer)) =
     Some (ODict [(''train_batch_size'', VInt 16)])"
    by (simp add: example_trainer_def example_args_def batch_size_config_state_def deref_def
        heap_get_def)
  then have src: "(\<exists>d. deref batch_size_config_state (deepspeed (args example_trainer)) =
             Some (ODict d) \<and> map fst d = [''train_batch_size''])
       \<or> (\<exists>p doc. deepspeed (args example_trainer) = VStr p
             \<and> read_json example_env p = Inr (PDict doc)
             \<and> map fst doc = [''train_batch_size''])"
    by simp
  have forbidden: "''train_batch_size'' \<in> set [''train_batch_size'']
       \<or> ''train_micro_batch_size_per_gpu'' \<in> set [''train_batch_size'']
       \<or> ''gradient_accumulation_steps'' \<in> set [''train_batch_size'']"
    by simp
  have env: "deepspeed_importable example_env \<and> deepspeed_version_ok example_env"
    by (simp add: example_env_def)
  have st: "events batch_size_config_state = []"
    by (simp add: batch_size_config_state_def)
  show ?thesis
    using deepspeed_init_rejects_batch_keys [OF src forbidden, where n = 100 and r = None]
      dict env st
    by simp
qed

text \<open>The merged values stay in the dict at address \<open>c\<close>.\<close>

lemma has_batch_args_setitem:
  assumes "has_batch_args a c s" and "k \<noteq> ''train_micro_batch_size_per_gpu''"
    and "k \<noteq> ''gradient_accumulation_steps''"
  shows "has_batch_args a c (snd (py_setitem v k x s))"
proof (cases "py_setitem v k x s = (Inl TypeError, s)")
  case True
  with assms(1) show ?thesis by simp
next
  case False
  then obtain b d where v: "v = VRef b" and b: "heap_get s b = Some (ODict d)"
    and run: "py_setitem v k x s = (Inr (), s\<lparr>heap := (heap s)[b := ODict (AList.update k x d)]\<rparr>)"
    by (auto simp: py_setitem_def split: val.splits option.splits obj.splits)
  from b have len: "b < length (heap s)" and at: "heap s ! b = ODict d"
    by (auto simp: heap_get_def split: if_splits)
  show ?thesis
  proof (cases "b = c")
    case True
    with assms at len show ?thesis
      by (simp add: run has_batch_args_def heap_get_def update_conv')
  next
    case False
    with assms(1) show ?thesis
      by (auto simp: run has_batch_args_def heap_get_def split: if_splits)
  qed
qed

lemma batch_steps_keep: "steps_keep (has_batch_args a c) (\<lambda>_. True)"
  unfolding steps_keep_def
proof (intro conjI allI impI)
  fix ev show "triple (has_batch_args a c) (emit ev) (\<lambda>_. True)"
    by (simp add: triple_def emit_def has_batch_args_def heap_get_def)
next
  fix b show "triple (has_batch_args a c) (set_flag b) (\<lambda>_. True)"
    by (simp add: triple_def set_flag_def has_batch_args_def heap_get_def)
next
  fix v k x
  assume "k \<noteq> ''train_micro_batch_size_per_gpu''" "k \<noteq> ''gradient_accumulation_steps''"
  then show "triple (has_batch_args a c) (py_setitem v k x) (\<lambda>_. True)"
    by (simp add: triple_def has_batch_args_setitem)
next
  fix ob show "triple (has_batch_args a c) (alloc ob) (\<lambda>_. True)"
    by (auto simp: triple_def alloc_def has_batch_args_def heap_get_def nth_append
        split: if_splits)
next
  fix v k show "triple (has_batch_args a c) (py_getitem v k) (\<lambda>_. True)"
    by (rule triple_py_getitem_any)
next
  fix v k show "triple (has_batch_args a c) (py_get v k) (\<lambda>_. True)"
    by (rule triple_py_get_any)
qed simp

lemma set_batch_args_dict:
  assumes "heap_get s c = Some (ODict items)"
  shows "set_batch_args a (VRef c) s =
    (Inr (), s\<lparr>heap := (heap s)[c := ODict (AList.update ''gradient_accumulation_steps''
                                             (VInt (gradient_accumulation_steps a))
                                          (AList.update ''train_micro_batch_size_per_gpu''
                                             (VInt (per_device_train_batch_size a)) items))]\<rparr>)"
proof -
  from assms have "c < length (heap s)" and "heap s ! c = ODict items"
    by (auto simp: heap_get_def split: if_splits)
  then show ?thesis
    by (simp add: set_batch_args_def seqP_def bindP_def py_setitem_def heap_get_def)
qed

lemma complete_config_result:
  "complete_config t n config s = (Inr result, s') \<Longrightarrow> engine_config result = config"
  unfolding complete_config_def initialize_def
  by (elim seqP_Inr bindP_Inr) (auto simp: return_def)

text \<open>
  Claim C6. Let the configuration that \<^verbatim>\<open>args.deepspeed\<close> denotes be a mapping without the
  three forbidden keys, and let DeepSpeed be importable with an accepted version. The
  configuration that \<open>deepspeed_init\<close> works on is the dict that \<open>deepspeed_parse_config\<close>
  returns, at an address \<open>c\<close>. When \<open>deepspeed_init\<close> ends, with a result or with an
  exception of a later block, that dict holds \<open>train_micro_batch_size_per_gpu\<close> equal to
  \<open>per_device_train_batch_size\<close> and \<open>gradient_accumulation_steps\<close> equal to the trainer's
  setting; and when it returns, the engine was initialised with that dict.
\<close>

theorem deepspeed_init_merges_batch_args:
  assumes src: "(\<exists>d. deref s (deepspeed (args t)) = Some (ODict d) \<and> map fst d = keys)
         \<or> (\<exists>p doc. deepspeed (args t) = VStr p \<and> read_json e p = Inr (PDict doc)
               \<and> map fst doc = keys)"
    and free: "''train_batch_size'' \<notin> set keys"
      "''train_micro_batch_size_per_gpu'' \<notin> set keys"
      "''gradient_accumulation_steps'' \<notin> set keys"
    and env: "deepspeed_importable e" "deepspeed_version_ok e"
  shows "\<exists>c items.
       fst (deepspeed_parse_config e (deepspeed (args t)) s) = Inr (VRef c)
     \<and> heap_get (snd (deepspeed_init e t n r s)) c = Some (ODict items)
     \<and> map_of items ''train_micro_batch_size_per_gpu'' =
         Some (VInt (per_device_train_batch_size (args t)))
     \<and> map_of items ''gradient_accumulation_steps'' =
         Some (VInt (gradient_accumulation_steps (args t)))
     \<and> (\<forall>result. fst (deepspeed_init e t n r s) = Inr result \<longrightarrow>
          engine_config result = VRef c)"
proof -
  obtain c items s1 where
    parse: "deepspeed_parse_config e (deepspeed (args t)) s = (Inr (VRef c), s1)"
    and at: "heap_get s1 c = Some (ODict items)" and keys: "map fst items = keys"
    by (rule parse_config_mapping [OF env(2) src])
  let ?merged = "ODict (AList.update ''gradient_accumulation_steps''
                          (VInt (gradient_accumulation_steps (args t)))
                       (AList.update ''train_micro_batch_size_per_gpu''
                          (VInt (per_device_train_batch_size (args t))) items))"
  let ?s2 = "s1\<lparr>heap := (heap s1)[c := ?merged]\<rparr>"
  let ?rest = "bindP (complete_config t n (VRef c))
                 (\<lambda>result. seqP (resume e r) (return result))"
  have check: "check_forbidden_keys (VRef c) s1 = (Inr (), s1)"
    using free by (simp add: check_forbidden_keys_dict [OF at] keys)
  have merge: "merge_batch_args (args t) (VRef c) s1 = (Inr (), ?s2)"
    by (simp add: merge_batch_args_def
        seqP_Inr_eq [of "check_forbidden_keys (VRef c)" s1, OF check]
        set_batch_args_dict [OF at])
  have run: "deepspeed_init e t n r s = ?rest ?s2"
    using env
    by (simp add: deepspeed_init_def
        bindP_Inr_eq [of "deepspeed_parse_config e (deepspeed (args t))" s, OF parse]
        seqP_Inr_eq [of "merge_batch_args (args t) (VRef c)" s1, OF merge])
  from at have "c < length (heap s1)"
    by (simp add: heap_get_def split: if_splits)
  then have start: "has_batch_args (args t) c ?s2"
    by (simp add: has_batch_args_def heap_get_def update_conv')
  have "triple (has_batch_args (args t) c) ?rest (\<lambda>_. True)"
    by (intro triple_bind [OF keeps_complete_config [OF batch_steps_keep]]
        triple_seq [OF keeps_resume [OF batch_steps_keep]] triple_return TrueI)
  from tripleD [OF this start] have "has_batch_args (args t) c (snd (deepspeed_init e t n r s))"
    by (simp only: run)
  then obtain final where
    final: "heap_get (snd (deepspeed_init e t n r s)) c = Some (ODict final)"
    "map_of final ''train_micro_batch_size_per_gpu'' =
         Some (VInt (per_device_train_batch_size (args t)))"
    "map_of final ''gradient_accumulation_steps'' =
         Some (VInt (gradient_accumulation_steps (args t)))"
    by (auto simp: has_batch_args_def split: option.splits obj.splits)
  have engine: "engine_config result = VRef c"
    if "fst (deepspeed_init e t n r s) = Inr result" for result
  proof -
    from that obtain s' where "?rest ?s2 = (Inr result, s')"
      unfolding run by (cases "?rest ?s2") simp
    then obtain res s3 where c: "complete_config t n (VRef c) ?s2 = (Inr res, s3)"
      and k: "seqP (resume e r) (return res) s3 = (Inr result, s')"
      by (elim bindP_Inr)
    from k have "res = result"
      by (auto elim!: seqP_Inr simp: return_def)
    with complete_config_result [OF c] show ?thesis by simp
  qed
  show ?thesis
    by (intro exI [of _ c] exI [of _ final] conjI allI impI final engine)
       (simp_all add: parse)
qed

theorem deepspeed_init_merges_batch_args_witness:
  "deref empty_config_state (deepspeed (args example_trainer)) = Some (ODict [])
   \<and> deepspeed_importable example_env \<and> deepspeed_version_ok example_env
   \<and> per_device_train_batch_size (args example_trainer) = 8
   \<and> gradient_accumulation_steps (args example_trainer) = 2
   \<and> (\<exists>items.
         heap_get (snd (deepspeed_init example_env example_trainer 100 None
                          empty_config_state)) 1 = Some (ODict items)
       \<and> map_of items ''train_micro_batch_size_per_gpu'' = Some (VInt 8)
       \<and> map_of items ''gradient_accumulation_steps'' = Some (VInt 2))"
proof -
  have dict: "deref empty_config_state (deepspeed (args example_trainer)) = Some (ODict [])"
    by (simp add: example_trainer_def example_args_def empty_config_state_def deref_def
        heap_get_def)
  then have src: "(\<exists>d. deref empty_config_state (deepspeed (args example_trainer)) =
             Some (ODict d) \<and> map fst d = [])
       \<or> (\<exists>p doc. deepspeed (args example_trainer) = VStr p
             \<and> read_json example_env p = Inr (PDict doc) \<and> map fst doc = [])"
    by simp
  have free: "''train_batch_size'' \<notin> set ([] :: string list)"
    "''train_micro_batch_size_per_gpu'' \<notin> set ([] :: string list)"
    "''gradient_accumulation_steps'' \<notin> set ([] :: string list)"
    by simp_all
  have env: "deepspeed_importable example_env" "deepspeed_version_ok example_env"
    by (simp_all add: example_env_def)
  have vals: "per_device_train_batch_size (args example_trainer) = 8"
    "gradient_accumulation_steps (args example_trainer) = 2"
    by (simp_all add: example_trainer_def example_args_def)
  have parse: "fst (deepspeed_parse_config example_env (deepspeed (args example_trainer))
                      empty_config_state) = Inr (VRef 1)"
    by (simp add: deepspeed_parse_config_def prog_eval example_defs)
  show ?thesis
    using deepspeed_init_merges_batch_args [OF src free env, where n = 100 and r = None]
      dict env vals parse
    by auto
qed

text \<open>The objects below an address bound are untouched by a program that reaches its
  objects through references from the bound on.\<close>

lemma above_immutable: "\<not> is_ref v \<Longrightarrow> above n v"
  by (cases v) (simp_all add: above_def is_ref_def)

lemma update_vals: "y \<in> snd ` set (AList.update k x d) \<Longrightarrow> y = x \<or> y \<in> snd ` set d"
  by (induction d) (auto split: if_splits)

lemma map_of_vals: "map_of d k = Some x \<Longrightarrow> x \<in> snd ` set d"
  by (induction d) (auto split: if_splits)

lemma frame_setitem:
  assumes v: "above n v" and x: "above n x"
  shows "triple (frame_inv n h) (py_setitem v k x) (\<lambda>_. True)"
  unfolding triple_def
proof (intro allI impI conjI)
  fix s assume inv: "frame_inv n h s"
  show "frame_inv n h (snd (py_setitem v k x s))"
  proof (cases "py_setitem v k x s = (Inl TypeError, s)")
    case True
    with inv show ?thesis by simp
  next
    case False
    then obtain b d where vb: "v = VRef b" and b: "heap_get s b = Some (ODict d)"
      and run: "py_setitem v k x s =
                  (Inr (), s\<lparr>heap := (heap s)[b := ODict (AList.update k x d)]\<rparr>)"
      by (auto simp: py_setitem_def split: val.splits option.splits obj.splits)
    from b have len: "b < length (heap s)" and at: "heap s ! b = ODict d"
      by (auto simp: heap_get_def split: if_splits)
    from v vb have nb: "n \<le> b" by (simp add: above_def)
    have old: "\<forall>y \<in> snd ` set d. above n y"
      using inv nb len at by (auto simp: frame_inv_def obj_vals_def)
    have new: "\<forall>y \<in> obj_vals (ODict (AList.update k x d)). above n y"
    proof
      fix y assume "y \<in> obj_vals (ODict (AList.update k x d))"
      then have "y \<in> snd ` set (AList.update k x d)" by (simp add: obj_vals_def)
      then have "y = x \<or> y \<in> snd ` set d" by (rule update_vals)
      with old x show "above n y" by blast
    qed
    show ?thesis
      unfolding run using inv nb len new
      by (auto simp: frame_inv_def nth_list_update)
  qed
qed simp

lemma frame_steps_keep: "steps_keep (frame_inv n h) (above n)"
  unfolding steps_keep_def
proof (intro conjI allI impI)
  fix v assume "\<not> is_ref v" then show "above n v" by (rule above_immutable)
next
  fix ev show "triple (frame_inv n h) (emit ev) (\<lambda>_. True)"
    by (simp add: triple_def emit_def frame_inv_def)
next
  fix b show "triple (frame_inv n h) (set_flag b) (\<lambda>_. True)"
    by (simp add: triple_def set_flag_def frame_inv_def)
next
  fix v k x assume "above n v" "above n x"
  then show "triple (frame_inv n h) (py_setitem v k x) (\<lambda>_. True)"
    by (rule frame_setitem)
next
  fix ob assume "\<forall>v \<in> obj_vals ob. above n v"
  then show "triple (frame_inv n h) (alloc ob) (above n)"
    by (auto simp: triple_def alloc_def frame_inv_def nth_append above_def)
next
  fix v k assume v: "above n v"
  show "triple (frame_inv n h) (py_getitem v k) (above n)"
    unfolding triple_def
  proof (intro allI impI conjI)
    fix s x assume inv: "frame_inv n h s" and "fst (py_getitem v k s) = Inr x"
    then obtain b d where "v = VRef b" "b < length (heap s)" "heap s ! b = ODict d"
      "map_of d k = Some x"
      by (auto simp: py_getitem_def deref_def heap_get_def
          split: val.splits option.splits obj.splits if_splits)
    with v inv map_of_vals [of d k x] show "above n x"
      by (auto simp: frame_inv_def obj_vals_def above_def)
  qed (simp add: py_getitem_def split: option.splits obj.splits)
next
  fix v k assume v: "above n v"
  show "triple (frame_inv n h) (py_get v k) (above n)"
    unfolding triple_def
  proof (intro allI impI conjI)
    fix s x assume inv: "frame_inv n h s" and "fst (py_get v k s) = Inr x"
    then obtain b d where "v = VRef b" "b < length (heap s)" "heap s ! b = ODict d"
      "x = (case map_of d k of None \<Rightarrow> VNone | Some y \<Rightarrow> y)"
      by (auto simp: py_get_def deref_def heap_get_def
          split: val.splits option.splits obj.splits if_splits)
    with v inv map_of_vals [of d k] show "above n x"
      by (auto simp: frame_inv_def obj_vals_def above_def split: option.splits)
  qed (simp add: py_get_def split: option.splits obj.splits)
qed

lemma store_fresh:
  "n \<le> length h \<Longrightarrow>
     (\<exists>ext. snd (store_tree doc h) = h @ ext \<and> (\<forall>ob \<in> set ext. \<forall>x \<in> obj_vals ob. above n x))
     \<and> above n (fst (store_tree doc h))"
  "n \<le> length h \<Longrightarrow>
     (\<exists>ext. snd (store_items d h) = h @ ext \<and> (\<forall>ob \<in> set ext. \<forall>x \<in> obj_vals ob. above n x))
     \<and> (\<forall>x \<in> snd ` set (fst (store_items d h)). above n x)"
  "n \<le> length h \<Longrightarrow>
     (\<exists>ext. snd (store_elems xs h) = h @ ext \<and> (\<forall>ob \<in> set ext. \<forall>x \<in> obj_vals ob. above n x))
     \<and> (\<forall>x \<in> set (fst (store_elems xs h)). above n x)"
proof (induction doc h and d h and xs h rule: store_tree_store_items_store_elems.induct)
  case (6 xs h)
  obtain vs h' where run: "store_elems xs h = (vs, h')" by (cases "store_elems xs h")
  from 6 run obtain ext where ext: "h' = h @ ext"
    "\<forall>ob \<in> set ext. \<forall>x \<in> obj_vals ob. above n x" and vs: "\<forall>x \<in> set vs. above n x"
    by auto
  have "snd (store_tree (PList xs) h) = h @ (ext @ [OList vs])"
    using run ext by simp
  moreover have "\<forall>ob \<in> set (ext @ [OList vs]). \<forall>x \<in> obj_vals ob. above n x"
    using ext vs by (auto simp: obj_vals_def)
  moreover have "above n (fst (store_tree (PList xs) h))"
    using run ext 6(2) by (simp add: above_def)
  ultimately show ?case by blast
next
  case (7 d h)
  obtain items h' where run: "store_items d h = (items, h')" by (cases "store_items d h")
  from 7 run obtain ext where ext: "h' = h @ ext"
    "\<forall>ob \<in> set ext. \<forall>x \<in> obj_vals ob. above n x" and vs: "\<forall>x \<in> snd ` set items. above n x"
    by auto
  have "snd (store_tree (PDict d) h) = h @ (ext @ [ODict items])"
    using run ext by simp
  moreover have "\<forall>ob \<in> set (ext @ [ODict items]). \<forall>x \<in> obj_vals ob. above n x"
    using ext vs by (auto simp: obj_vals_def)
  moreover have "above n (fst (store_tree (PDict d) h))"
    using run ext 7(2) by (simp add: above_def)
  ultimately show ?case by blast
next
  case (9 k v rest h)
  obtain v' h1 where 1: "store_tree v h = (v', h1)" by (cases "store_tree v h")
  obtain rest' h2 where 2: "store_items rest h1 = (rest', h2)" by (cases "store_items rest h1")
  from 9(1) [OF 9(3)] 1 obtain ext1 where ext1: "h1 = h @ ext1"
    "\<forall>ob \<in> set ext1. \<forall>x \<in> obj_vals ob. above n x" and v': "above n v'"
    by auto
  from ext1 9(3) have "n \<le> length h1" by simp
  from 9(2) [OF 1 [symmetric] this] 2 obtain ext2 where ext2: "h2 = h1 @ ext2"
    "\<forall>ob \<in> set ext2. \<forall>x \<in> obj_vals ob. above n x" and rest': "\<forall>x \<in> snd ` set rest'. above n x"
    by auto
  have "snd (store_items ((k, v) # rest) h) = h @ (ext1 @ ext2)"
    using 1 2 ext1 ext2 by simp
  moreover have "\<forall>ob \<in> set (ext1 @ ext2). \<forall>x \<in> obj_vals ob. above n x"
    using ext1 ext2 by auto
  moreover have "\<forall>x \<in> snd ` set (fst (store_items ((k, v) # rest) h)). above n x"
    using 1 2 v' rest' by simp
  ultimately show ?case by blast
next
  case (11 v rest h)
  obtain v' h1 where 1: "store_tree v h = (v', h1)" by (cases "store_tree v h")
  obtain rest' h2 where 2: "store_elems rest h1 = (rest', h2)" by (cases "store_elems rest h1")
  from 11(1) [OF 11(3)] 1 obtain ext1 where ext1: "h1 = h @ ext1"
    "\<forall>ob \<in> set ext1. \<forall>x \<in> obj_vals ob. above n x" and v': "above n v'"
    by auto
  from ext1 11(3) have "n \<le> length h1" by simp
  from 11(2) [OF 1 [symmetric] this] 2 obtain ext2 where ext2: "h2 = h1 @ ext2"
    "\<forall>ob \<in> set ext2. \<forall>x \<in> obj_vals ob. above n x" and rest': "\<forall>x \<in> set rest'. above n x"
    by auto
  have "snd (store_elems (v # rest) h) = h @ (ext1 @ ext2)"
    using 1 2 ext1 ext2 by simp
  moreover have "\<forall>ob \<in> set (ext1 @ ext2). \<forall>x \<in> obj_vals ob. above n x"
    using ext1 ext2 by auto
  moreover have "\<forall>x \<in> set (fst (store_elems (v # rest) h)). above n x"
    using 1 2 v' rest' by simp
  ultimately show ?case by blast
qed (simp_all add: above_def)

lemma frame_extend:
  assumes inv: "frame_inv n h s" and new: "\<forall>ob \<in> set ext. \<forall>x \<in> obj_vals ob. above n x"
  shows "frame_inv n h (s\<lparr>heap := heap s @ ext\<rparr>)"
  using assms by (auto simp: frame_inv_def nth_append)

lemma frame_load_document: "triple (frame_inv n h) (load_document doc) (above n)"
  unfolding triple_def
proof (intro allI impI)
  fix s assume inv: "frame_inv n h s"
  then have n: "n \<le> length (heap s)" by (simp add: frame_inv_def)
  from store_fresh(1) [OF n, of doc] obtain ext where
    ext: "snd (store_tree doc (heap s)) = heap s @ ext"
      "\<forall>ob \<in> set ext. \<forall>x \<in> obj_vals ob. above n x"
    and v: "above n (fst (store_tree doc (heap s)))"
    by blast
  have run: "load_document doc s = (Inr (fst (store_tree doc (heap s))), s\<lparr>heap := heap s @ ext\<rparr>)"
    using ext(1) by (simp add: load_document_def case_prod_unfold)
  show "frame_inv n h (snd (load_document doc s))
      \<and> (\<forall>x. fst (load_document doc s) = Inr x \<longrightarrow> above n x)"
    unfolding run using frame_extend [OF inv ext(2)] v by simp
qed

lemma shift_obj_vals: "x \<in> obj_vals (shift_obj m ob) \<Longrightarrow> n \<le> m \<Longrightarrow> above n x"
  by (cases ob) (auto simp: obj_vals_def shift_obj_def shift_def above_def split: val.splits)

lemma frame_deepcopy: "triple (frame_inv n h) (deepcopy v) (above n)"
  unfolding triple_def
proof (intro allI impI)
  fix s assume inv: "frame_inv n h s"
  then have n: "n \<le> length (heap s)" by (simp add: frame_inv_def)
  have new: "\<forall>ob \<in> set (map (shift_obj (length (heap s))) (heap s)). \<forall>x \<in> obj_vals ob. above n x"
    using n by (auto intro: shift_obj_vals)
  have "above n (shift (length (heap s)) v)"
    using n by (simp add: shift_def above_def split: val.splits)
  then show "frame_inv n h (snd (deepcopy v s)) \<and> (\<forall>x. fst (deepcopy v s) = Inr x \<longrightarrow> above n x)"
    using frame_extend [OF inv new] by (simp add: deepcopy_def Let_def)
qed

lemma frame_parse_config: "triple (frame_inv n h) (deepspeed_parse_config e v) (above n)"
proof (cases "deepspeed_version_ok e")
  case False
  then show ?thesis by (simp add: deepspeed_parse_config_def triple_raise)
next
  case True
  have load: "triple (frame_inv n h) (bindP (liftE (read_json e p)) load_document) (above n)" for p
    by (intro triple_bind [OF triple_liftE] frame_load_document)
  show ?thesis
    unfolding triple_def
  proof (intro allI impI)
    fix s assume inv: "frame_inv n h s"
    show "frame_inv n h (snd (deepspeed_parse_config e v s))
        \<and> (\<forall>x. fst (deepspeed_parse_config e v s) = Inr x \<longrightarrow> above n x)"
      using True inv frame_deepcopy [of n h v] load
      by (auto simp: deepspeed_parse_config_def triple_def raise_def
          split: option.splits obj.splits val.splits)
  qed
qed

lemma frame_merge_batch_args:
  "above n config \<Longrightarrow> triple (frame_inv n h) (merge_batch_args a config) (\<lambda>_. True)"
  unfolding merge_batch_args_def set_batch_args_def
  by (intro triple_seq [OF keeps_check_forbidden_keys] triple_seq [OF frame_setitem]
      frame_setitem) (simp_all add: above_def)

lemma deepspeed_init_frame:
  "triple (frame_inv n h) (deepspeed_init e t num r) (\<lambda>_. True)"
  unfolding deepspeed_init_def
  by (intro triple_if triple_raise triple_bind [OF frame_parse_config]
      triple_seq [OF frame_merge_batch_args]
      triple_bind [OF keeps_complete_config [OF frame_steps_keep]]
      triple_seq [OF keeps_resume [OF frame_steps_keep]] triple_return TrueI)

lemma frame_inv_start: "frame_inv (length (heap s)) (heap s) s"
  by (simp add: frame_inv_def)

lemma frame_inv_deref:
  assumes "frame_inv (length (heap s)) (heap s) s'" and "deref s v = Some ob"
  shows "deref s' v = Some ob"
proof -
  from assms(2) obtain a where v: "v = VRef a" and a: "a < length (heap s)"
    and at: "heap s ! a = ob"
    by (rule deref_dictD)
  from assms(1) have len: "length (heap s) \<le> length (heap s')"
    and same: "take (length (heap s)) (heap s') = heap s"
    by (simp_all add: frame_inv_def)
  have "heap s' ! a = take (length (heap s)) (heap s') ! a" using a by simp
  with same at have "heap s' ! a = ob" by simp
  with a len show ?thesis by (simp add: v deref_def heap_get_def)
qed

text \<open>
  Claim C10. Let \<^verbatim>\<open>args.deepspeed\<close> refer to a dict \<open>d\<close> in a store of \<open>m\<close> objects. Then
  \<open>deepspeed_parse_config\<close> returns a reference to a new object, a dict with the keys of
  \<open>d\<close> in which every reference of \<open>d\<close> is replaced by the reference to the copy of its
  target; every object the caller had has such a copy among the new objects, so the nested
  dicts and lists are copied too. After \<open>deepspeed_parse_config\<close>, and after
  \<open>deepspeed_init\<close> whatever its outcome, the first \<open>m\<close> objects of the store are the
  caller's objects unchanged and no later object refers to one of them; in particular
  \<^verbatim>\<open>args.deepspeed\<close> still refers to \<open>d\<close>. And if \<open>d\<close> has none of the forbidden keys, then
  parsing the same dict again after \<open>deepspeed_init\<close> and running the check of the
  forbidden keys and the merge on the result passes again.
\<close>

theorem deepspeed_init_keeps_caller_dict:
  assumes dict: "deref s (deepspeed (args t)) = Some (ODict d)"
  shows "(deepspeed_version_ok e \<longrightarrow>
            (\<exists>c. fst (deepspeed_parse_config e (deepspeed (args t)) s) = Inr (VRef c)
               \<and> length (heap s) \<le> c
               \<and> heap_get (snd (deepspeed_parse_config e (deepspeed (args t)) s)) c
                   = Some (ODict (map (\<lambda>(k, x). (k, shift (length (heap s)) x)) d)))
            \<and> (\<forall>b < length (heap s).
                 heap_get (snd (deepspeed_parse_config e (deepspeed (args t)) s))
                     (b + length (heap s))
                   = Some (shift_obj (length (heap s)) (heap s ! b))))
     \<and> frame_inv (length (heap s)) (heap s)
         (snd (deepspeed_parse_config e (deepspeed (args t)) s))
     \<and> frame_inv (length (heap s)) (heap s) (snd (deepspeed_init e t n r s))
     \<and> deref (snd (deepspeed_init e t n r s)) (deepspeed (args t)) = Some (ODict d)
     \<and> (''train_batch_size'' \<notin> set (map fst d)
          \<and> ''train_micro_batch_size_per_gpu'' \<notin> set (map fst d)
          \<and> ''gradient_accumulation_steps'' \<notin> set (map fst d) \<longrightarrow>
          (\<forall>e' t'. deepspeed_version_ok e' \<longrightarrow>
             fst (bindP (deepspeed_parse_config e' (deepspeed (args t)))
                        (merge_batch_args (args t'))
                    (snd (deepspeed_init e t n r s))) = Inr ()))"
proof -
  let ?v = "deepspeed (args t)"
  let ?m = "length (heap s)"
  let ?s' = "snd (deepspeed_init e t n r s)"
  from dict obtain a where v: "?v = VRef a" and a: "a < ?m" and at: "heap s ! a = ODict d"
    by (rule deref_dictD)
  have copy: "(\<exists>c. fst (deepspeed_parse_config e ?v s) = Inr (VRef c) \<and> ?m \<le> c
               \<and> heap_get (snd (deepspeed_parse_config e ?v s)) c
                   = Some (ODict (map (\<lambda>(k, x). (k, shift ?m x)) d)))
            \<and> (\<forall>b < ?m. heap_get (snd (deepspeed_parse_config e ?v s)) (b + ?m)
                   = Some (shift_obj ?m (heap s ! b)))"
    if ok: "deepspeed_version_ok e"
  proof -
    have run: "deepspeed_parse_config e ?v s =
                 (Inr (VRef (a + ?m)), s\<lparr>heap := heap s @ map (shift_obj ?m) (heap s)\<rparr>)"
      using parse_config_dict [OF ok dict] v by (simp add: shift_def)
    have all: "\<forall>b < ?m. heap_get (snd (deepspeed_parse_config e ?v s)) (b + ?m)
                   = Some (shift_obj ?m (heap s ! b))"
      unfolding run by (simp add: heap_get_def nth_append)
    from all a at
    have "heap_get (snd (deepspeed_parse_config e ?v s)) (a + ?m)
            = Some (ODict (map (\<lambda>(k, x). (k, shift ?m x)) d))"
      by (simp add: shift_obj_def)
    with run all show ?thesis by simp
  qed
  have parse: "frame_inv ?m (heap s) (snd (deepspeed_parse_config e ?v s))"
    by (rule tripleD [OF frame_parse_config frame_inv_start])
  have init: "frame_inv ?m (heap s) ?s'"
    by (rule tripleD [OF deepspeed_init_frame frame_inv_start])
  have kept: "deref ?s' ?v = Some (ODict d)"
    by (rule frame_inv_deref [OF init dict])
  have again: "fst (bindP (deepspeed_parse_config e' ?v) (merge_batch_args (args t')) ?s')
                 = Inr ()"
    if free: "''train_batch_size'' \<notin> set (map fst d)"
      "''train_micro_batch_size_per_gpu'' \<notin> set (map fst d)"
      "''gradient_accumulation_steps'' \<notin> set (map fst d)"
      and ok: "deepspeed_version_ok e'" for e' t'
  proof -
    from kept have src: "(\<exists>d'. deref ?s' ?v = Some (ODict d') \<and> map fst d' = map fst d)
         \<or> (\<exists>p doc. ?v = VStr p \<and> read_json e' p = Inr (PDict doc) \<and> map fst doc = map fst d)"
      by simp
    obtain c items s1 where
      run: "deepspeed_parse_config e' ?v ?s' = (Inr (VRef c), s1)"
      and c: "heap_get s1 c = Some (ODict items)" and keys: "map fst items = map fst d"
      by (rule parse_config_mapping [OF ok src])
    have check: "check_forbidden_keys (VRef c) s1 = (Inr (), s1)"
      using free by (simp add: check_forbidden_keys_dict [OF c] keys)
    have "merge_batch_args (args t') (VRef c) s1 =
            (Inr (), snd (set_batch_args (args t') (VRef c) s1))"
      by (simp add: merge_batch_args_def
          seqP_Inr_eq [of "check_forbidden_keys (VRef c)" s1, OF check]
          set_batch_args_dict [OF c])
    then show ?thesis
      by (simp add: bindP_Inr_eq [of "deepspeed_parse_config e' ?v" ?s', OF run])
  qed
  show ?thesis
    using copy parse init kept again by blast
qed

theorem deepspeed_init_keeps_caller_dict_witness:
  "deref nested_config_state (deepspeed (args example_trainer))
     = Some (ODict [(''optimizer'', VRef 1)])
   \<and> deepspeed_version_ok example_env
   \<and> fst (deepspeed_parse_config example_env (deepspeed (args example_trainer))
            nested_config_state) = Inr (VRef 3)
   \<and> heap_get (snd (deepspeed_parse_config example_env (deepspeed (args example_trainer))
                      nested_config_state)) 3
       = Some (ODict [(''optimizer'', VRef 4)])
   \<and> heap_get (snd (deepspeed_parse_config example_env (deepspeed (args example_trainer))
                      nested_config_state)) 5
       = Some (ODict [(''lr'', VInt 0)])
   \<and> take 3 (heap (snd (deepspeed_init example_env example_trainer 100 None
                          nested_config_state)))
       = heap nested_config_state
   \<and> deref (snd (deepspeed_init example_env example_trainer 100 None nested_config_state))
       (deepspeed (args example_trainer))
       = Some (ODict [(''optimizer'', VRef 1)])
   \<and> fst (bindP (deepspeed_parse_config example_env (deepspeed (args example_trainer)))
                 (merge_batch_args (args example_trainer))
             (snd (deepspeed_init example_env example_trainer 100 None nested_config_state)))
       = Inr ()"
proof -
  have dict: "deref nested_config_state (deepspeed (args example_trainer))
                = Some (ODict [(''optimizer'', VRef 1)])"
    by (simp add: example_defs deref_def heap_get_def)
  have ok: "deepspeed_version_ok example_env"
    by (simp add: example_env_def)
  have len: "length (heap nested_config_state) = 3"
    by (simp add: nested_config_state_def)
  have parse: "fst (deepspeed_parse_config example_env (deepspeed (args example_trainer))
            nested_config_state) = Inr (VRef 3)"
    by (simp add: deepspeed_parse_config_def prog_eval example_defs)
  have inner: "heap nested_config_state ! 2 = ODict [(''lr'', VInt 0)]"
    by (simp add: nested_config_state_def)
  note C10 = deepspeed_init_keeps_caller_dict [OF dict, of example_env 100 None]
  from C10 ok have "\<forall>b < 3. heap_get (snd (deepspeed_parse_config example_env
        (deepspeed (args example_trainer)) nested_config_state)) (b + 3)
          = Some (shift_obj 3 (heap nested_config_state ! b))"
    by (simp only: len) blast
  then have five: "heap_get (snd (deepspeed_parse_config example_env
        (deepspeed (args example_trainer)) nested_config_state)) 5
          = Some (ODict [(''lr'', VInt 0)])"
    using inner by (auto simp: shift_obj_def shift_def dest!: spec [of _ 2])
  show ?thesis
    using C10 dict ok parse five
    by (auto simp: len frame_inv_def shift_def)
qed

lemma resume_none: "resume e None = return ()"
  by (simp add: resume_def)

lemma resume_without_checkpoint:
  assumes "glob e (p @ ''/global_step*'') = []"
  shows "resume e (Some p) s =
    (Inr (), s\<lparr>events := events s @
       [LogInfo [Lit p, Lit '' doesn't have deepspeed checkpoints, doing nothing'']]\<rparr>)"
  using assms by (simp add: resume_def emit_def)

lemma resume_load_fails:
  assumes "glob e (p @ ''/global_step*'') \<noteq> []" and "load_checkpoint e p = None"
  shows "resume e (Some p) s =
    (Inl (ValueError (''[deepspeed] failed to resume from checkpoint '' @ p)),
     s\<lparr>events := events s @
       [LogInfo [Lit ''Attempting to resume from '', Lit p], LoadCheckpoint p]\<rparr>)"
proof -
  have "sort (glob e (p @ ''/global_step*'')) \<noteq> []"
  proof
    assume "sort (glob e (p @ ''/global_step*'')) = []"
    then have "length (sort (glob e (p @ ''/global_step*''))) = 0" by simp
    then have "length (glob e (p @ ''/global_step*'')) = 0" by (simp only: length_sort)
    with assms(1) show False by simp
  qed
  then show ?thesis
    using assms(2) by (simp add: resume_def Let_def seqP_def bindP_def emit_def raise_def)
qed

lemma deepspeed_init_then_resume:
  "deepspeed_init e t n r s =
     (case deepspeed_init e t n None s of
        (Inl err, s1) \<Rightarrow> (Inl err, s1)
      | (Inr result, s1) \<Rightarrow>
          (case resume e r s1 of
             (Inl err, s2) \<Rightarrow> (Inl err, s2)
           | (Inr u, s2) \<Rightarrow> (Inr result, s2)))"
  by (simp add: deepspeed_init_def resume_none bindP_def seqP_def return_def raise_def
      split: prod.splits sum.splits)

text \<open>
  Claim C8, as the code has it. Take a call of \<open>deepspeed_init\<close> that returns when no
  checkpoint is given, and give it the checkpoint path \<open>p\<close>. If no entry matches
  \<^verbatim>\<open>p/global_step*\<close>, the call returns the same result: it logs that \<open>p\<close> has no DeepSpeed
  checkpoints and loads nothing. If an entry matches and the engine's \<open>load_checkpoint\<close>
  returns no load path, the call raises \<^verbatim>\<open>ValueError\<close> with the message
  \<^verbatim>\<open>[deepspeed] failed to resume from checkpoint\<close> followed by \<open>p\<close>.
\<close>

theorem deepspeed_init_resume_outcomes:
  assumes "deepspeed_init e t n None s = (Inr result, s1)"
  shows "(glob e (p @ ''/global_step*'') = [] \<longrightarrow>
            deepspeed_init e t n (Some p) s =
              (Inr result, s1\<lparr>events := events s1 @
                 [LogInfo [Lit p, Lit '' doesn't have deepspeed checkpoints, doing nothing'']]\<rparr>))
     \<and> (glob e (p @ ''/global_step*'') \<noteq> [] \<and> load_checkpoint e p = None \<longrightarrow>
            deepspeed_init e t n (Some p) s =
              (Inl (ValueError (''[deepspeed] failed to resume from checkpoint '' @ p)),
               s1\<lparr>events := events s1 @
                 [LogInfo [Lit ''Attempting to resume from '', Lit p], LoadCheckpoint p]\<rparr>))"
proof (intro conjI impI)
  assume "glob e (p @ ''/global_step*'') = []"
  from resume_without_checkpoint [OF this, of s1] assms
  show "deepspeed_init e t n (Some p) s =
              (Inr result, s1\<lparr>events := events s1 @
                 [LogInfo [Lit p, Lit '' doesn't have deepspeed checkpoints, doing nothing'']]\<rparr>)"
    by (simp add: deepspeed_init_then_resume [of e t n "Some p" s])
next
  assume "glob e (p @ ''/global_step*'') \<noteq> [] \<and> load_checkpoint e p = None"
  then have "glob e (p @ ''/global_step*'') \<noteq> []" and "load_checkpoint e p = None"
    by simp_all
  from resume_load_fails [OF this, of s1] assms
  show "deepspeed_init e t n (Some p) s =
              (Inl (ValueError (''[deepspeed] failed to resume from checkpoint '' @ p)),
               s1\<lparr>events := events s1 @
                 [LogInfo [Lit ''Attempting to resume from '', Lit p], LoadCheckpoint p]\<rparr>)"
    by (simp add: deepspeed_init_then_resume [of e t n "Some p" s])
qed

text \<open>
  Claim C8 as stated fails: the checkpoint path \<^verbatim>\<open>ckpt\<close> has no \<^verbatim>\<open>global_step*\<close> entry, and
  \<open>deepspeed_init\<close> returns its result.
\<close>

theorem deepspeed_init_resume_counterexample:
  "glob example_env (''ckpt'' @ ''/global_step*'') = []
   \<and> fst (deepspeed_init example_env example_trainer 100 (Some ''ckpt'') empty_config_state) =
       Inr \<lparr>engine_config = VRef 1, optimizer_passed = True,
            lr_scheduler_passed = True\<rparr>"
  by (simp add: ds_eval prog_eval example_defs)

theorem deepspeed_init_resume_outcomes_witness:
  "fst (deepspeed_init example_env example_trainer 100 None empty_config_state) =
     Inr \<lparr>engine_config = VRef 1, optimizer_passed = True,
            lr_scheduler_passed = True\<rparr>
   \<and> glob example_env (''ckpt'' @ ''/global_step*'') = []
   \<and> fst (deepspeed_init example_env example_trainer 100 (Some ''ckpt'') empty_config_state) =
     Inr \<lparr>engine_config = VRef 1, optimizer_passed = True,
            lr_scheduler_passed = True\<rparr>
   \<and> glob failing_load_env (''ckpt'' @ ''/global_step*'') \<noteq> []
   \<and> load_checkpoint failing_load_env ''ckpt'' = None
   \<and> fst (deepspeed_init failing_load_env example_trainer 100 (Some ''ckpt'') empty_config_state) =
     Inl (ValueError ''[deepspeed] failed to resume from checkpoint ckpt'')"
proof -
  let ?result = "\<lparr>engine_config = VRef 1, optimizer_passed = True,
            lr_scheduler_passed = True\<rparr>"
  let ?s1 = "\<lparr>heap = [ODict [],
                     ODict [(''train_micro_batch_size_per_gpu'', VInt 8),
                            (''gradient_accumulation_steps'', VInt 2),
                            (''gradient_clipping'', VFloat 1),
                            (''zero_allow_untested_optimizer'', VBool True)]],
            zero3_flag = None,
            events = [CreateOptimizer, CreateScheduler 100,
                      Initialize (VRef 1) True True]\<rparr>"
  have run1: "deepspeed_init example_env example_trainer 100 None empty_config_state =
      (Inr ?result, ?s1)"
    by (simp add: ds_eval prog_eval example_defs)
  have run2: "deepspeed_init failing_load_env example_trainer 100 None empty_config_state =
      (Inr ?result, ?s1)"
    by (simp add: ds_eval prog_eval example_defs failing_load_env_def)
  have g1: "glob example_env (''ckpt'' @ ''/global_step*'') = []"
    by (simp add: example_env_def)
  have g2: "glob failing_load_env (''ckpt'' @ ''/global_step*'') \<noteq> []
      \<and> load_checkpoint failing_load_env ''ckpt'' = None"
    by (simp add: example_env_def failing_load_env_def)
  show ?thesis
    using deepspeed_init_resume_outcomes [OF run1, of "''ckpt''"]
      deepspeed_init_resume_outcomes [OF run2, of "''ckpt''"] run1 g1 g2
    by simp
qed
section \<open>Properties of the \<^verbatim>\<open>on_log\<close> hooks\<close>

lemma tensorboard_log_items_map:
  "tensorboard_log_items step d =
     map (\<lambda>(k, v). if is_number v then AddScalar k v step else tensorboard_warning k v) d"
  by (induction d) auto

lemma mlflow_log_items_map:
  "mlflow_log_items step d =
     map (\<lambda>(k, v). if is_number v then LogMetric k v step else mlflow_warning k v) d"
  by (induction d) auto

lemma azureml_log_items_filter:
  "azureml_log_items d = map (\<lambda>(k, v). AzureLog k v k) (filter (\<lambda>(k, v). is_number v) d)"
  by (induction d) auto

text \<open>
  Claim C4, as the code has it, for a dict \<open>logs\<close>. On the reporting process and with a
  writer, \<open>TensorBoardCallback.on_log\<close> goes through the rewritten logs in order: a number
  is passed to \<open>add_scalar\<close>, anything else is replaced by a warning and not passed on; then
  it flushes. On the reporting process \<open>MLflowCallback.on_log\<close> does the same with
  \<open>log_metric\<close>, on the logs as given. \<open>AzureMLCallback.on_log\<close>, when it has a run, passes
  the numbers on and leaves the other entries out, without a warning.
  \<open>WandbCallback.on_log\<close>, on the reporting process, passes all rewritten entries on in one
  call, numbers or not, together with \<open>train/global_step\<close>, and logs no warning. None of
  the four raises.
\<close>

theorem on_log_numeric_filter:
  "(is_world_process_zero st \<and> (tb_writer tb \<noteq> None \<or> summary_writer_available tb) \<longrightarrow>
      fst (tensorboard_on_log dir st (Some d) tb) = Inr ()
      \<and> snd (snd (tensorboard_on_log dir st (Some d) tb)) =
          (if tb_writer tb = None then [CreateWriter dir] else [])
          @ map (\<lambda>(k, v). if is_number v then AddScalar k v (global_step st)
                           else tensorboard_warning k v) (rewrite_logs d)
          @ [Flush])
   \<and> (is_world_process_zero st \<longrightarrow>
      fst (mlflow_on_log st (Some d) ml) = Inr ()
      \<and> snd (snd (mlflow_on_log st (Some d) ml)) =
          (if mlflow_initialized ml then [] else [MlflowSetup])
          @ map (\<lambda>(k, v). if is_number v then LogMetric k v (global_step st)
                           else mlflow_warning k v) d)
   \<and> (azureml_run az \<longrightarrow>
      fst (azureml_on_log (Some d) az) = Inr ()
      \<and> snd (snd (azureml_on_log (Some d) az)) =
          map (\<lambda>(k, v). AzureLog k v k) (filter (\<lambda>(k, v). is_number v) d))
   \<and> (is_world_process_zero st \<and> wandb_present wb \<longrightarrow>
      fst (wandb_on_log st (Some d) wb) = Inr ()
      \<and> snd (snd (wandb_on_log st (Some d) wb)) =
          (if wandb_initialized wb then [] else [WandbSetup])
          @ [WandbLog (AList.update ''train/global_step'' (PInt (global_step st))
                         (rewrite_logs d))])"
proof (intro conjI impI)
  assume h: "is_world_process_zero st \<and> (tb_writer tb \<noteq> None \<or> summary_writer_available tb)"
  then show "fst (tensorboard_on_log dir st (Some d) tb) = Inr ()"
    by (auto simp: tensorboard_on_log_def init_summary_writer_def Let_def)
  from h show "snd (snd (tensorboard_on_log dir st (Some d) tb)) =
          (if tb_writer tb = None then [CreateWriter dir] else [])
          @ map (\<lambda>(k, v). if is_number v then AddScalar k v (global_step st)
                           else tensorboard_warning k v) (rewrite_logs d)
          @ [Flush]"
    by (auto simp: tensorboard_on_log_def init_summary_writer_def Let_def
        tensorboard_log_items_map)
next
  assume h: "is_world_process_zero st"
  then show "fst (mlflow_on_log st (Some d) ml) = Inr ()"
    by (simp add: mlflow_on_log_def mlflow_setup_def Let_def)
  from h show "snd (snd (mlflow_on_log st (Some d) ml)) =
          (if mlflow_initialized ml then [] else [MlflowSetup])
          @ map (\<lambda>(k, v). if is_number v then LogMetric k v (global_step st)
                           else mlflow_warning k v) d"
    by (simp add: mlflow_on_log_def mlflow_setup_def Let_def mlflow_log_items_map)
next
  assume h: "azureml_run az"
  then show "fst (azureml_on_log (Some d) az) = Inr ()"
    by (simp add: azureml_on_log_def)
  from h show "snd (snd (azureml_on_log (Some d) az)) =
          map (\<lambda>(k, v). AzureLog k v k) (filter (\<lambda>(k, v). is_number v) d)"
    by (simp add: azureml_on_log_def azureml_log_items_filter)
next
  assume h: "is_world_process_zero st \<and> wandb_present wb"
  then show "fst (wandb_on_log st (Some d) wb) = Inr ()"
    by (simp add: wandb_on_log_def wandb_setup_def Let_def)
  from h show "snd (snd (wandb_on_log st (Some d) wb)) =
          (if wandb_initialized wb then [] else [WandbSetup])
          @ [WandbLog (AList.update ''train/global_step'' (PInt (global_step st))
                         (rewrite_logs d))]"
    by (simp add: wandb_on_log_def wandb_setup_def Let_def)
qed

lemmas callback_example_defs =
  example_logs_def reporting_state_def new_tensorboard_def new_wandb_def new_mlflow_def
  azureml_with_run_def

lemmas rewrite_eval =
  rewrite_logs_def rewrite_item_def startswith_def eval_prefix_def eval_prefix_len_def

text \<open>
  Claim C4 as stated fails: \<open>WandbCallback.on_log\<close> passes the string entry \<open>note\<close> on to
  \<^verbatim>\<open>wandb.log\<close> and logs no warning, and \<open>AzureMLCallback.on_log\<close> leaves it out without a
  warning.
\<close>

theorem on_log_non_numeric_counterexample:
  "\<not> is_number (PStr ''x'')
   \<and> wandb_on_log reporting_state (Some example_logs) new_wandb =
       (Inr (), \<lparr>wandb_present = True, wandb_initialized = True\<rparr>,
        [WandbSetup,
         WandbLog [(''train/loss'', PFloat (1 / 2)), (''train/note'', PStr ''x''),
                   (''train/global_step'', PInt 7)]])
   \<and> azureml_on_log (Some example_logs) azureml_with_run =
       (Inr (), \<lparr>azureml_run = True\<rparr>, [AzureLog ''loss'' (PFloat (1 / 2)) ''loss''])"
  by (simp add: wandb_on_log_def wandb_setup_def azureml_on_log_def callback_example_defs
      rewrite_eval)

theorem on_log_numeric_filter_witness:
  "is_world_process_zero reporting_state
   \<and> summary_writer_available new_tensorboard
   \<and> azureml_run azureml_with_run
   \<and> wandb_present new_wandb
   \<and> snd (snd (tensorboard_on_log ''runs'' reporting_state (Some example_logs) new_tensorboard)) =
       [CreateWriter ''runs'', AddScalar ''train/loss'' (PFloat (1 / 2)) 7,
        tensorboard_warning ''train/note'' (PStr ''x''), Flush]
   \<and> snd (snd (mlflow_on_log reporting_state (Some example_logs) new_mlflow)) =
       [MlflowSetup, LogMetric ''loss'' (PFloat (1 / 2)) 7, mlflow_warning ''note'' (PStr ''x'')]
   \<and> snd (snd (azureml_on_log (Some example_logs) azureml_with_run)) =
       [AzureLog ''loss'' (PFloat (1 / 2)) ''loss'']
   \<and> snd (snd (wandb_on_log reporting_state (Some example_logs) new_wandb)) =
       [WandbSetup,
        WandbLog [(''train/loss'', PFloat (1 / 2)), (''train/note'', PStr ''x''),
                  (''train/global_step'', PInt 7)]]"
proof -
  have hyps: "is_world_process_zero reporting_state"
    "tb_writer new_tensorboard = None" "summary_writer_available new_tensorboard"
    "azureml_run azureml_with_run" "wandb_present new_wandb"
    "\<not> wandb_initialized new_wandb" "\<not> mlflow_initialized new_mlflow"
    "global_step reporting_state = 7"
    by (simp_all add: callback_example_defs)
  have logs: "rewrite_logs example_logs =
      [(''train/loss'', PFloat (1 / 2)), (''train/note'', PStr ''x'')]"
    by (simp add: example_logs_def rewrite_eval)
  have logs': "example_logs = [(''loss'', PFloat (1 / 2)), (''note'', PStr ''x'')]"
    by (simp add: example_logs_def)
  show ?thesis
    using on_log_numeric_filter [where st = reporting_state and tb = new_tensorboard
        and dir = "''runs''" and d = example_logs and ml = new_mlflow
        and az = azureml_with_run and wb = new_wandb] hyps
    by (simp add: logs) (simp add: logs')
qed

section \<open>Properties of \<^verbatim>\<open>run_hp_search_ray\<close>\<close>

lemmas ray_eval =
  run_hp_search_ray_def pop_callback_def default_resources_def gpus_per_trial_def
  default_progress_reporter_def setup_checkpoints_def check_scheduler_def
  is_scheduler_instance_def kwarg_type_name_def

lemmas ray_example_defs =
  example_ray_env_def example_search_trainer_def asha_kwargs_def asha_keep2_kwargs_def

text \<open>
  Claim C7, at a call the code mishandles: the keyword arguments hold an ASHA scheduler and
  \<^verbatim>\<open>keep_checkpoints_num=2\<close>, and evaluation is off. The warning about the number of
  checkpoints looks up the key \<open>keep_checkpoint_num\<close>, which is not there, so the function
  raises \<^verbatim>\<open>KeyError\<close> and never reaches the check that raises \<^verbatim>\<open>RuntimeError\<close>.
\<close>

theorem run_hp_search_ray_keep_checkpoints_slip:
  "map_of asha_keep2_kwargs ''scheduler'' =
     Some (KScheduler (Scheduler ASHAScheduler ''AsyncHyperBandScheduler''))
   \<and> \<not> do_eval (search_args example_search_trainer)
   \<and> fst (run_hp_search_ray example_ray_env example_search_trainer 10 ''minimize''
            asha_keep2_kwargs) = Inl (KeyError ''keep_checkpoint_num'')
   \<and> snd (snd (run_hp_search_ray example_ray_env example_search_trainer 10 ''minimize''
                 asha_keep2_kwargs)) =
       [RayInfo [Txt ''No `resources_per_trial` arg was passed into `hyperparameter_search`. Setting it to a default value of '',
                 Txt ''1 CPU'', Txt '' for each trial.'']]"
  by (simp add: ray_eval ray_example_defs)

lemma other_keys_after_defaults:
  assumes "k \<noteq> ''resources_per_trial''" and "k \<noteq> ''progress_reporter''"
  shows "map_of (default_progress_reporter (fst (default_resources trainer kwargs))) k =
           map_of kwargs k"
  using assms by (simp add: default_progress_reporter_def default_resources_def update_conv')

lemma gpus_per_trial_defaults:
  assumes "map_of kwargs ''resources_per_trial'' = None
           \<or> (\<exists>d. map_of kwargs ''resources_per_trial'' = Some (KResources d))"
  shows "\<exists>g. gpus_per_trial (fst (default_resources trainer kwargs)) = Inr g"
  using assms
  by (auto simp: gpus_per_trial_def default_resources_def update_conv')

lemma setup_checkpoints_passes:
  assumes "map_of kw ''keep_checkpoints_num'' = None
           \<or> (\<exists>k. map_of kw ''keep_checkpoints_num'' = Some (KInt k)
                 \<and> (k \<le> 1 \<or> map_of kw ''keep_checkpoint_num'' \<noteq> None))"
  shows "\<exists>trainer' ev. setup_checkpoints kw trainer = (Inr (), trainer', ev)
           \<and> search_args trainer' = search_args trainer
           \<and> (\<forall>n kw'. TuneRun n kw' \<notin> set ev)"
  using assms
  by (auto simp: setup_checkpoints_def Let_def split: option.splits)

lemma check_scheduler_raises:
  assumes "map_of kw ''scheduler'' = Some (KScheduler s)"
    and "instance_of s \<noteq> OtherScheduler"
    and "\<not> do_eval (search_args trainer) \<or> evaluation_strategy (search_args trainer) = NO"
  shows "\<exists>ev. check_scheduler kw trainer =
                 (Inl (RuntimeError (no_evaluation_message (type_name s))), ev)
              \<and> (\<forall>n kw'. TuneRun n kw' \<notin> set ev)"
proof -
  have "instance_of s \<in> {ASHAScheduler, MedianStoppingRule, HyperBandForBOHB,
                            PopulationBasedTraining}"
    using assms(2) by (cases "instance_of s") simp_all
  with assms show ?thesis
    by (auto simp: check_scheduler_def is_scheduler_instance_def kwarg_type_name_def Let_def)
qed

text \<open>
  Away from that slip the claim holds: when \<^verbatim>\<open>keep_checkpoints_num\<close> is absent or at most 1
  (or the misspelt key is present too) and \<^verbatim>\<open>resources_per_trial\<close> is absent or a dict, a
  scheduler of one of the four classes with evaluation off makes the function raise
  \<^verbatim>\<open>RuntimeError\<close>, and \<^verbatim>\<open>ray.tune.run\<close> has not been called.
\<close>

lemma run_hp_search_ray_requires_evaluation:
  assumes ray: "ray_importable e"
    and sched: "map_of kwargs ''scheduler'' = Some (KScheduler s)"
      "instance_of s \<noteq> OtherScheduler"
    and noeval: "\<not> do_eval (search_args trainer) \<or> evaluation_strategy (search_args trainer) = NO"
    and resources: "map_of kwargs ''resources_per_trial'' = None
           \<or> (\<exists>d. map_of kwargs ''resources_per_trial'' = Some (KResources d))"
    and keep: "map_of kwargs ''keep_checkpoints_num'' = None
           \<or> (\<exists>k. map_of kwargs ''keep_checkpoints_num'' = Some (KInt k)
                 \<and> (k \<le> 1 \<or> map_of kwargs ''keep_checkpoint_num'' \<noteq> None))"
  shows "fst (run_hp_search_ray e trainer n_trials direction kwargs) =
           Inl (RuntimeError (no_evaluation_message (type_name s)))
         \<and> (\<forall>n kw. TuneRun n kw \<notin> set (snd (snd (run_hp_search_ray e trainer n_trials
                                                     direction kwargs))))"
proof -
  define cbs where "cbs = snd (pop_callback TensorBoardCallback (callbacks trainer))"
  define trainer1 where "trainer1 = trainer\<lparr>callbacks := cbs, model_loaded := False\<rparr>"
  define kwargs1 where "kwargs1 = fst (default_resources trainer1 kwargs)"
  define ev1 where "ev1 = snd (default_resources trainer1 kwargs)"
  define kwargs2 where "kwargs2 = default_progress_reporter kwargs1"
  from gpus_per_trial_defaults [OF resources, of trainer1]
  obtain g where g: "gpus_per_trial kwargs1 = Inr g"
    unfolding kwargs1_def by blast
  define trainer2 where
    "trainer2 = trainer1\<lparr>search_args := (search_args trainer1)\<lparr>private_n_gpu := g\<rparr>\<rparr>"
  have look: "map_of kwargs2 k = map_of kwargs k"
    if "k \<noteq> ''resources_per_trial''" "k \<noteq> ''progress_reporter''" for k
    unfolding kwargs2_def kwargs1_def using that by (rule other_keys_after_defaults)
  have keep2: "map_of kwargs2 ''keep_checkpoints_num'' = None
           \<or> (\<exists>k. map_of kwargs2 ''keep_checkpoints_num'' = Some (KInt k)
                 \<and> (k \<le> 1 \<or> map_of kwargs2 ''keep_checkpoint_num'' \<noteq> None))"
    using keep by (simp add: look)
  from setup_checkpoints_passes [OF keep2, of trainer2]
  obtain trainer3 ev3 where
    cp: "setup_checkpoints kwargs2 trainer2 = (Inr (), trainer3, ev3)"
    and args3: "search_args trainer3 = search_args trainer2"
    and ev3: "\<forall>n kw'. TuneRun n kw' \<notin> set ev3"
    by blast
  have sched2: "map_of kwargs2 ''scheduler'' = Some (KScheduler s)"
    using sched(1) by (simp add: look)
  have noeval3: "\<not> do_eval (search_args trainer3)
                 \<or> evaluation_strategy (search_args trainer3) = NO"
    using noeval by (simp add: args3 trainer2_def trainer1_def)
  from check_scheduler_raises [OF sched2 sched(2) noeval3]
  obtain ev4 where
    cs: "check_scheduler kwargs2 trainer3 =
           (Inl (RuntimeError (no_evaluation_message (type_name s))), ev4)"
    and ev4: "\<forall>n kw'. TuneRun n kw' \<notin> set ev4"
    by blast
  have ev1: "\<forall>n kw'. TuneRun n kw' \<notin> set ev1"
    by (simp add: ev1_def default_resources_def)
  have "run_hp_search_ray e trainer n_trials direction kwargs =
          (Inl (RuntimeError (no_evaluation_message (type_name s))), trainer3, ev1 @ ev3 @ ev4)"
    using ray g cp cs
    by (simp add: run_hp_search_ray_def Let_def split_beta cbs_def [symmetric]
        trainer1_def [symmetric] kwargs1_def [symmetric] ev1_def [symmetric]
        kwargs2_def [symmetric] trainer2_def [symmetric])
  with ev1 ev3 ev4 show ?thesis by simp
qed

end
